theory Spec2Isabelle
  imports Complex_Main
begin

section \<open>Exceptions and Python values\<close>

text \<open>
  The exception classes of \<^verbatim>\<open>psutil/__init__.py\<close> (\<^verbatim>\<open>NoSuchProcess\<close>,
  \<^verbatim>\<open>AccessDenied\<close>, \<^verbatim>\<open>TimeoutExpired\<close>) and the built-in exceptions the modelled
  functions raise. \<^verbatim>\<open>NoSuchProcess\<close> and \<^verbatim>\<open>AccessDenied\<close> carry the pid; the name
  and message attributes are not modelled. A raising computation returns \<open>Inl\<close>.

  Python floats are idealised as real numbers: comparison, subtraction and division
  are exact, and a division by zero raises \<^verbatim>\<open>ZeroDivisionError\<close> as it does for
  Python floats and (under \<^verbatim>\<open>from __future__ import division\<close>) integers.
\<close>

datatype error =
    NoSuchProcess int
  | AccessDenied int
  | TimeoutExpired
  | ValueError
  | ZeroDivisionError
  | AttributeError
  | OSError int

text \<open>
  Python 2's \<^verbatim>\<open>round(x, 1)\<close>: one decimal place, halves rounded away from zero.
\<close>

definition round1 :: "real \<Rightarrow> real" where
  "round1 x = (if 0 \<le> x then of_int \<lfloor>x * 10 + 1 / 2\<rfloor> / 10
               else - (of_int \<lfloor>- x * 10 + 1 / 2\<rfloor> / 10))"

text \<open>Python's true division \<^verbatim>\<open>a / b\<close>.\<close>

definition py_div :: "real \<Rightarrow> real \<Rightarrow> error + real" where
  "py_div a b = (if b = 0 then Inl ZeroDivisionError else Inr (a / b))"

text \<open>
  A namedtuple of CPU times (\<^verbatim>\<open>scputimes\<close>): its fields in declaration order, each with
  its value. The field list depends on the platform (\<^verbatim>\<open>user\<close>, \<^verbatim>\<open>system\<close>, \<^verbatim>\<open>idle\<close>,
  and on Linux \<^verbatim>\<open>nice\<close>, \<^verbatim>\<open>iowait\<close>, \<^verbatim>\<open>irq\<close>, ...), so it is kept as data.
\<close>

type_synonym namedtuple = "(string \<times> real) list"

definition field_names :: "namedtuple \<Rightarrow> string list" where
  "field_names t = map fst t"

definition getattr :: "namedtuple \<Rightarrow> string \<Rightarrow> error + real" where
  "getattr t f = (case map_of t f of None \<Rightarrow> Inl AttributeError | Some v \<Rightarrow> Inr v)"

definition sum_nt :: "namedtuple \<Rightarrow> real" where
  "sum_nt t = sum_list (map snd t)"

section \<open>The platform provider\<close>

text \<open>
  \<^verbatim>\<open>_psplatform\<close> and the \<^verbatim>\<open>os\<close> module as the code sees them at one moment: constants
  of the platform and the answers of its queries. A query that raises answers \<open>Inl\<close>.
  Successive calls may be given different platforms: the process table changes.
\<close>

datatype signal = SIGTERM | SIGSTOP | SIGCONT | SIGKILL | OtherSignal int

datatype errno = ESRCH | EPERM | OtherErrno int

text \<open>
  The calls of the platform's process implementation that act on a process, and the
  getters that only read. An acting call answers \<open>None\<close> when it succeeds and
  \<open>Some e\<close> when it raises \<open>e\<close>; \<^verbatim>\<open>os.kill\<close> answers the errno of its
  \<^verbatim>\<open>OSError\<close>.
\<close>

datatype provider_call =
    Nice_set int int
  | Ionice_set int int "int option"
  | Rlimit_set int int "int \<times> int"
  | Cpu_affinity_set int "int list"
  | Os_kill int signal
  | Proc_kill int
  | Proc_suspend int
  | Proc_resume int

datatype query = Nice_get | Ionice_get | Rlimit_get int | Cpu_affinity_get

datatype answer = IntValue int | PairValue int int | ListValue "int list"

record platform =
  POSIX :: bool
  WINDOWS :: bool
  has_ppid_map :: bool
  os_getpid :: int
  psplatform_pids :: "int list"
  psplatform_pid_exists :: "int \<Rightarrow> error + bool"
  proc_create_time :: "int \<Rightarrow> error + real"
  proc_ppid :: "int \<Rightarrow> error + int option"
  psplatform_ppid_map :: "(int \<times> int option) list"
  os_kill :: "int \<Rightarrow> signal \<Rightarrow> errno option"
  proc_query :: "int \<Rightarrow> query \<Rightarrow> error + answer"
  proc_do :: "provider_call \<Rightarrow> error option"

section \<open>pid_exists\<close>

definition pid_exists :: "platform \<Rightarrow> int \<Rightarrow> error + bool" where
  "pid_exists plat pid =
     (if pid < 0 then Inr False
      else if pid = 0 \<and> POSIX plat then Inr (pid \<in> set (psplatform_pids plat))
      else psplatform_pid_exists plat pid)"

section \<open>System-wide CPU utilisation\<close>

text \<open>
  The module globals \<^verbatim>\<open>_last_cpu_times\<close>, \<^verbatim>\<open>_last_per_cpu_times\<close> and their
  \<^verbatim>\<open>_2\<close> twins. They are assigned at import time from \<^verbatim>\<open>cpu_times()\<close>, so they always
  hold a sample.
\<close>

record module_state =
  last_cpu_times :: namedtuple
  last_per_cpu_times :: "namedtuple list"
  last_cpu_times_2 :: namedtuple
  last_per_cpu_times_2 :: "namedtuple list"

text \<open>What \<^verbatim>\<open>cpu_times()\<close> and \<^verbatim>\<open>cpu_times(percpu=True)\<close> answer at one moment.\<close>

record cpu_reading =
  cpu_times :: namedtuple
  per_cpu_times :: "namedtuple list"

definition module_import :: "cpu_reading \<Rightarrow> module_state" where
  "module_import r =
     \<lparr>last_cpu_times = cpu_times r, last_per_cpu_times = per_cpu_times r,
      last_cpu_times_2 = cpu_times r, last_per_cpu_times_2 = per_cpu_times r\<rparr>"

definition is_blocking :: "real option \<Rightarrow> bool" where
  "is_blocking interval = (case interval of None \<Rightarrow> False | Some i \<Rightarrow> i > 0)"

text \<open>\<^verbatim>\<open>cpu_percent.calculate\<close>.\<close>

definition calculate :: "namedtuple \<Rightarrow> namedtuple \<Rightarrow> error + real" where
  "calculate t1 t2 =
     (let t1_all = sum_nt t1 in
      case getattr t1 ''idle'' of Inl e \<Rightarrow> Inl e | Inr idle1 \<Rightarrow>
      let t1_busy = t1_all - idle1;
          t2_all = sum_nt t2 in
      case getattr t2 ''idle'' of Inl e \<Rightarrow> Inl e | Inr idle2 \<Rightarrow>
      let t2_busy = t2_all - idle2 in
      if t2_busy \<le> t1_busy then Inr 0
      else
        let busy_delta = t2_busy - t1_busy;
            all_delta = t2_all - t1_all in
        case py_div busy_delta all_delta of Inl e \<Rightarrow> Inl e
        | Inr q \<Rightarrow> Inr (round1 (q * 100)))"

text \<open>The for loop over \<^verbatim>\<open>zip(tot1, _last_per_cpu_times)\<close>; the first exception ends it.\<close>

fun calculate_each ::
  "(namedtuple \<Rightarrow> namedtuple \<Rightarrow> error + 'a) \<Rightarrow> (namedtuple \<times> namedtuple) list \<Rightarrow> error + 'a list"
where
  "calculate_each calc [] = Inr []"
| "calculate_each calc ((t1, t2) # rest) =
     (case calc t1 t2 of Inl e \<Rightarrow> Inl e
      | Inr v \<Rightarrow> (case calculate_each calc rest of Inl e \<Rightarrow> Inl e | Inr vs \<Rightarrow> Inr (v # vs)))"

datatype 'a percent_result = Whole 'a | PerCpu "'a list"

text \<open>
  \<^verbatim>\<open>cpu_percent(interval, percpu)\<close>. \<open>before\<close> is what \<^verbatim>\<open>cpu_times\<close> answers before the
  sleep (read only when blocking), \<open>after\<close> what it answers afterwards.
\<close>

definition cpu_percent ::
  "real option \<Rightarrow> bool \<Rightarrow> cpu_reading \<Rightarrow> cpu_reading \<Rightarrow> module_state
   \<Rightarrow> (error + real percent_result) \<times> module_state"
where
  "cpu_percent interval percpu before after st =
     (if \<not> percpu then
        let t1 = (if is_blocking interval then cpu_times before else last_cpu_times st);
            st' = st\<lparr>last_cpu_times := cpu_times after\<rparr> in
        (case calculate t1 (last_cpu_times st') of Inl e \<Rightarrow> (Inl e, st')
         | Inr v \<Rightarrow> (Inr (Whole v), st'))
      else
        let tot1 = (if is_blocking interval then per_cpu_times before
                    else last_per_cpu_times st);
            st' = st\<lparr>last_per_cpu_times := per_cpu_times after\<rparr> in
        (case calculate_each calculate (zip tot1 (last_per_cpu_times st')) of
           Inl e \<Rightarrow> (Inl e, st')
         | Inr vs \<Rightarrow> (Inr (PerCpu vs), st')))"

section \<open>Per-field CPU utilisation\<close>

text \<open>
  \<^verbatim>\<open>cpu_times_percent.calculate\<close>. The loop runs over \<^verbatim>\<open>t1._fields\<close>; the result is
  \<^verbatim>\<open>_psplatform.scputimes(*nums)\<close>, the percentages under the same field names.
\<close>

definition field_percent :: "bool \<Rightarrow> real \<Rightarrow> real \<Rightarrow> real" where
  "field_percent windows field_delta all_delta =
     (let field_perc = (case py_div (100 * field_delta) all_delta of
                          Inl e \<Rightarrow> 0 | Inr q \<Rightarrow> q);
          field_perc = round1 field_perc in
      if windows then
        (if field_perc > 100 then 100
         else if field_perc < 0 then 0
         else field_perc)
      else field_perc)"

fun calculate_fields ::
  "bool \<Rightarrow> real \<Rightarrow> string list \<Rightarrow> namedtuple \<Rightarrow> namedtuple \<Rightarrow> error + namedtuple"
where
  "calculate_fields windows all_delta [] t1 t2 = Inr []"
| "calculate_fields windows all_delta (field # rest) t1 t2 =
     (case getattr t2 field of Inl e \<Rightarrow> Inl e
      | Inr v2 \<Rightarrow>
     (case getattr t1 field of Inl e \<Rightarrow> Inl e
      | Inr v1 \<Rightarrow>
     (case calculate_fields windows all_delta rest t1 t2 of Inl e \<Rightarrow> Inl e
      | Inr nums \<Rightarrow> Inr ((field, field_percent windows (v2 - v1) all_delta) # nums))))"

definition calculate_tp :: "bool \<Rightarrow> namedtuple \<Rightarrow> namedtuple \<Rightarrow> error + namedtuple" where
  "calculate_tp windows t1 t2 =
     (let all_delta = sum_nt t2 - sum_nt t1 in
      calculate_fields windows all_delta (field_names t1) t1 t2)"

text \<open>
  The per-field percentage in the specification's words: one field's delta against the
  delta of the sum of all fields, rounded to one decimal, \<open>0.0\<close> when the total delta
  is zero, and clamped into \<open>[0, 100]\<close> only on the provider whose counters can regress.
\<close>

definition spec_field_percent :: "bool \<Rightarrow> real \<Rightarrow> real \<Rightarrow> real" where
  "spec_field_percent clamped field_delta total_delta =
     (let p = (if total_delta = 0 then 0 else round1 ((100 * field_delta) / total_delta))
      in if clamped then min 100 (max 0 p) else p)"

definition field_value :: "namedtuple \<Rightarrow> string \<Rightarrow> real" where
  "field_value t f = (case map_of t f of None \<Rightarrow> 0 | Some v \<Rightarrow> v)"

definition cpu_times_percent ::
  "bool \<Rightarrow> real option \<Rightarrow> bool \<Rightarrow> cpu_reading \<Rightarrow> cpu_reading \<Rightarrow> module_state
   \<Rightarrow> (error + namedtuple percent_result) \<times> module_state"
where
  "cpu_times_percent windows interval percpu before after st =
     (if \<not> percpu then
        let t1 = (if is_blocking interval then cpu_times before else last_cpu_times_2 st);
            st' = st\<lparr>last_cpu_times_2 := cpu_times after\<rparr> in
        (case calculate_tp windows t1 (last_cpu_times_2 st') of Inl e \<Rightarrow> (Inl e, st')
         | Inr v \<Rightarrow> (Inr (Whole v), st'))
      else
        let tot1 = (if is_blocking interval then per_cpu_times before
                    else last_per_cpu_times_2 st);
            st' = st\<lparr>last_per_cpu_times_2 := per_cpu_times after\<rparr> in
        (case calculate_each (calculate_tp windows) (zip tot1 (last_per_cpu_times_2 st')) of
           Inl e \<Rightarrow> (Inl e, st')
         | Inr vs \<Rightarrow> (Inr (PerCpu vs), st')))"

section \<open>The Process class\<close>

text \<open>
  The attributes of a \<^verbatim>\<open>Process\<close> object: \<^verbatim>\<open>_pid\<close>, \<^verbatim>\<open>_name\<close>, \<^verbatim>\<open>_create_time\<close>,
  \<^verbatim>\<open>_gone\<close>, \<^verbatim>\<open>_ppid\<close>, the two last-sample slots, \<^verbatim>\<open>_ident\<close>, and the
  \<^verbatim>\<open>returncode\<close> attribute that \<^verbatim>\<open>wait_procs\<close> adds (\<open>None\<close>: the attribute is
  absent; \<open>Some None\<close>: it is Python's None). A method that mutates \<^verbatim>\<open>self\<close>
  returns the new object beside its result.
\<close>

record Process =
  p_pid :: int
  p_name :: "string option"
  p_create_time :: "real option"
  p_gone :: bool
  p_ppid :: "int option"
  p_last_sys_cpu_times :: "real option"
  p_last_proc_cpu_times :: "(real \<times> real) option"
  p_ident :: "int \<times> real option"
  p_returncode :: "int option option"

definition create_time :: "platform \<Rightarrow> Process \<Rightarrow> (error + real) \<times> Process" where
  "create_time plat self =
     (case p_create_time self of
        Some ct \<Rightarrow> (Inr ct, self)
      | None \<Rightarrow>
          (case proc_create_time plat (p_pid self) of
             Inl e \<Rightarrow> (Inl e, self)
           | Inr ct \<Rightarrow> (Inr ct, self\<lparr>p_create_time := Some ct\<rparr>)))"

text \<open>
  \<^verbatim>\<open>Process._init(pid, _ignore_nsp)\<close>; \<^verbatim>\<open>Process(pid)\<close> is \<open>Process_init plat pid False\<close>.
  The \<^verbatim>\<open>TypeError\<close> for a pid that is no integer is excluded by the type.
\<close>

definition Process_init :: "platform \<Rightarrow> int option \<Rightarrow> bool \<Rightarrow> error + Process" where
  "Process_init plat pid ignore_nsp =
     (case (case pid of None \<Rightarrow> Inr (os_getpid plat)
            | Some p \<Rightarrow> if p < 0 then Inl ValueError else Inr p) of
        Inl e \<Rightarrow> Inl e
      | Inr pid' \<Rightarrow>
          (let self = \<lparr>p_pid = pid', p_name = None, p_create_time = None, p_gone = False,
                        p_ppid = None, p_last_sys_cpu_times = None,
                        p_last_proc_cpu_times = None, p_ident = (pid', None),
                        p_returncode = None\<rparr>
           in case create_time plat self of
                (Inr ct, self') \<Rightarrow> Inr (self'\<lparr>p_ident := (p_pid self', p_create_time self')\<rparr>)
              | (Inl (AccessDenied x), self') \<Rightarrow>
                  Inr (self'\<lparr>p_ident := (p_pid self', p_create_time self')\<rparr>)
              | (Inl (NoSuchProcess x), self') \<Rightarrow>
                  if \<not> ignore_nsp then Inl (NoSuchProcess pid')
                  else Inr (self'\<lparr>p_gone := True,
                                   p_ident := (p_pid self', p_create_time self')\<rparr>)
              | (Inl e, self') \<Rightarrow> Inl e))"

text \<open>\<^verbatim>\<open>__eq__\<close>: equality of the identities \<^verbatim>\<open>(pid, creation time)\<close>.\<close>

definition Process_eq :: "Process \<Rightarrow> Process \<Rightarrow> bool" where
  "Process_eq self other = (p_ident self = p_ident other)"

definition is_running :: "platform \<Rightarrow> Process \<Rightarrow> (error + bool) \<times> Process" where
  "is_running plat self =
     (if p_gone self then (Inr False, self)
      else
        (case Process_init plat (Some (p_pid self)) False of
           Inr other \<Rightarrow> (Inr (Process_eq self other), self)
         | Inl (NoSuchProcess x) \<Rightarrow> (Inr False, self\<lparr>p_gone := True\<rparr>)
         | Inl e \<Rightarrow> (Inl e, self)))"

text \<open>Successive \<^verbatim>\<open>is_running()\<close> calls on one handle, one platform snapshot per call.\<close>

fun is_running_seq :: "platform list \<Rightarrow> Process \<Rightarrow> (error + bool) list \<times> Process" where
  "is_running_seq [] self = ([], self)"
| "is_running_seq (plat # plats) self =
     (case is_running plat self of
        (r, self') \<Rightarrow> (case is_running_seq plats self' of (rs, self'') \<Rightarrow> (r # rs, self'')))"

section \<open>Process CPU utilisation\<close>

text \<open>
  What one sampling moment answers: \<^verbatim>\<open>_timer()\<close>, the system-wide \<^verbatim>\<open>cpu_times()\<close> and
  the process's \<^verbatim>\<open>self._proc.cpu_times()\<close> as \<^verbatim>\<open>(user, system)\<close>, which may raise.
\<close>

record proc_reading =
  timer_value :: real
  sys_cpu_times :: namedtuple
  proc_cpu_times :: "error + real \<times> real"

definition timer :: "bool \<Rightarrow> int \<Rightarrow> proc_reading \<Rightarrow> real" where
  "timer posix num_cpus r =
     (if posix then timer_value r * of_int num_cpus else sum_nt (sys_cpu_times r))"

text \<open>The part of \<^verbatim>\<open>Process.cpu_percent\<close> from \<^verbatim>\<open>delta_proc = ...\<close> on.\<close>

definition overall_percent ::
  "int \<Rightarrow> real \<Rightarrow> real \<times> real \<Rightarrow> real \<Rightarrow> real \<times> real \<Rightarrow> Process \<Rightarrow> (error + real) \<times> Process"
where
  "overall_percent num_cpus st1 pt1 st2 pt2 self =
     (let delta_proc = (fst pt2 - fst pt1) + (snd pt2 - snd pt1);
          delta_time = st2 - st1;
          self' = self\<lparr>p_last_sys_cpu_times := Some st2, p_last_proc_cpu_times := Some pt2\<rparr>
      in case py_div delta_proc delta_time of
           Inl e \<Rightarrow> (Inr 0, self')
         | Inr q \<Rightarrow> (Inr (round1 ((q * 100) * of_int num_cpus)), self'))"

text \<open>
  \<^verbatim>\<open>Process.cpu_percent(interval)\<close> with \<open>posix\<close> for \<^verbatim>\<open>_POSIX\<close> and \<open>num_cpus\<close> for
  \<^verbatim>\<open>cpu_count()\<close>. \<open>before\<close> is read only when blocking, \<open>after\<close> is the reading after
  the sleep, or the only reading when not blocking.
\<close>

definition Process_cpu_percent ::
  "bool \<Rightarrow> int \<Rightarrow> real option \<Rightarrow> proc_reading \<Rightarrow> proc_reading \<Rightarrow> Process
   \<Rightarrow> (error + real) \<times> Process"
where
  "Process_cpu_percent posix num_cpus interval before after self =
     (if is_blocking interval then
        (let st1 = timer posix num_cpus before in
         case proc_cpu_times before of Inl e \<Rightarrow> (Inl e, self) | Inr pt1 \<Rightarrow>
         let st2 = timer posix num_cpus after in
         case proc_cpu_times after of Inl e \<Rightarrow> (Inl e, self) | Inr pt2 \<Rightarrow>
         overall_percent num_cpus st1 pt1 st2 pt2 self)
      else
        (let st1 = p_last_sys_cpu_times self;
             pt1 = p_last_proc_cpu_times self;
             st2 = timer posix num_cpus after in
         case proc_cpu_times after of Inl e \<Rightarrow> (Inl e, self) | Inr pt2 \<Rightarrow>
         (case (st1, pt1) of
            (Some s1, Some p1) \<Rightarrow> overall_percent num_cpus s1 p1 st2 pt2 self
          | _ \<Rightarrow> (Inr 0, self\<lparr>p_last_sys_cpu_times := Some st2,
                               p_last_proc_cpu_times := Some pt2\<rparr>))))"

section \<open>Operations of a Process that act on the process\<close>

text \<open>
  An operation returns its result, the acting calls it made on the platform, in order,
  and the handle as it leaves it. A getter's result is \<open>Some\<close> answer, a setter's is
  \<open>None\<close> (Python's None).
\<close>

type_synonym 'a outcome = "(error + 'a) \<times> provider_call list \<times> Process"

definition act :: "platform \<Rightarrow> provider_call \<Rightarrow> Process \<Rightarrow> answer option outcome" where
  "act plat c self =
     (case proc_do plat c of Some e \<Rightarrow> (Inl e, [c], self) | None \<Rightarrow> (Inr None, [c], self))"

definition ask :: "platform \<Rightarrow> query \<Rightarrow> Process \<Rightarrow> answer option outcome" where
  "ask plat q self =
     (case proc_query plat (p_pid self) q of
        Inl e \<Rightarrow> (Inl e, [], self)
      | Inr a \<Rightarrow> (Inr (Some a), [], self))"

text \<open>The decorator \<^verbatim>\<open>_assert_pid_not_reused\<close>.\<close>

definition assert_pid_not_reused ::
  "(platform \<Rightarrow> Process \<Rightarrow> 'a outcome) \<Rightarrow> platform \<Rightarrow> Process \<Rightarrow> 'a outcome"
where
  "assert_pid_not_reused f plat self =
     (case is_running plat self of
        (Inl e, self') \<Rightarrow> (Inl e, [], self')
      | (Inr running, self') \<Rightarrow>
          if \<not> running then (Inl (NoSuchProcess (p_pid self')), [], self')
          else f plat self')"

definition ppid :: "platform \<Rightarrow> Process \<Rightarrow> (error + int option) \<times> Process" where
  "ppid plat self =
     (if POSIX plat then (proc_ppid plat (p_pid self), self)
      else
        (case p_ppid self of
           None \<Rightarrow>
             (case proc_ppid plat (p_pid self) of
                Inl e \<Rightarrow> (Inl e, self)
              | Inr v \<Rightarrow> (Inr v, self\<lparr>p_ppid := v\<rparr>))
         | Some v \<Rightarrow> (Inr (Some v), self)))"

text \<open>
  \<^verbatim>\<open>parent()\<close>. It makes no acting call; its result is the parent handle or None.
\<close>

definition parent :: "platform \<Rightarrow> Process \<Rightarrow> (error + Process option) \<times> Process" where
  "parent plat self =
     (case ppid plat self of
        (Inl e, self1) \<Rightarrow> (Inl e, self1)
      | (Inr None, self1) \<Rightarrow> (Inr None, self1)
      | (Inr (Some pp), self1) \<Rightarrow>
          (case Process_init plat (Some pp) False of
             Inl (NoSuchProcess x) \<Rightarrow> (Inr None, self1)
           | Inl e \<Rightarrow> (Inl e, self1)
           | Inr par \<Rightarrow>
               (case create_time plat par of
                  (Inl (NoSuchProcess x), par') \<Rightarrow> (Inr None, self1)
                | (Inl e, par') \<Rightarrow> (Inl e, self1)
                | (Inr pct, par') \<Rightarrow>
                    (case create_time plat self1 of
                       (Inl (NoSuchProcess x), self2) \<Rightarrow> (Inr None, self2)
                     | (Inl e, self2) \<Rightarrow> (Inl e, self2)
                     | (Inr sct, self2) \<Rightarrow>
                         if pct \<le> sct then (Inr (Some par'), self2)
                         else (Inr None, self2)))))"

definition nice :: "platform \<Rightarrow> int option \<Rightarrow> Process \<Rightarrow> answer option outcome" where
  "nice plat value self =
     (case value of
        None \<Rightarrow> ask plat Nice_get self
      | Some v \<Rightarrow>
          (case is_running plat self of
             (Inl e, self') \<Rightarrow> (Inl e, [], self')
           | (Inr running, self') \<Rightarrow>
               if \<not> running then (Inl (NoSuchProcess (p_pid self')), [], self')
               else act plat (Nice_set (p_pid self') v) self'))"

definition ionice ::
  "platform \<Rightarrow> int option \<Rightarrow> int option \<Rightarrow> Process \<Rightarrow> answer option outcome"
where
  "ionice plat ioclass value self =
     (case ioclass of
        None \<Rightarrow>
          (if value \<noteq> None then (Inl ValueError, [], self)
           else ask plat Ionice_get self)
      | Some c \<Rightarrow> act plat (Ionice_set (p_pid self) c value) self)"

definition rlimit ::
  "platform \<Rightarrow> int \<Rightarrow> (int \<times> int) option \<Rightarrow> Process \<Rightarrow> answer option outcome"
where
  "rlimit plat resource limits self =
     (case limits of
        None \<Rightarrow> ask plat (Rlimit_get resource) self
      | Some l \<Rightarrow> act plat (Rlimit_set (p_pid self) resource l) self)"

definition cpu_affinity ::
  "platform \<Rightarrow> int list option \<Rightarrow> Process \<Rightarrow> answer option outcome"
where
  "cpu_affinity plat cpus self =
     (case cpus of
        None \<Rightarrow> ask plat Cpu_affinity_get self
      | Some cs \<Rightarrow> act plat (Cpu_affinity_set (p_pid self) cs) self)"

text \<open>\<^verbatim>\<open>_send_signal\<close>, defined on POSIX only.\<close>

definition posix_send_signal :: "platform \<Rightarrow> signal \<Rightarrow> Process \<Rightarrow> answer option outcome" where
  "posix_send_signal plat sig self =
     (case os_kill plat (p_pid self) sig of
        None \<Rightarrow> (Inr None, [Os_kill (p_pid self) sig], self)
      | Some ESRCH \<Rightarrow>
          (Inl (NoSuchProcess (p_pid self)), [Os_kill (p_pid self) sig],
           self\<lparr>p_gone := True\<rparr>)
      | Some EPERM \<Rightarrow> (Inl (AccessDenied (p_pid self)), [Os_kill (p_pid self) sig], self)
      | Some (OtherErrno n) \<Rightarrow> (Inl (OSError n), [Os_kill (p_pid self) sig], self))"

definition send_signal :: "platform \<Rightarrow> signal \<Rightarrow> Process \<Rightarrow> answer option outcome" where
  "send_signal plat sig =
     assert_pid_not_reused
       (\<lambda>plat self.
          if POSIX plat then posix_send_signal plat sig self
          else if sig = SIGTERM then act plat (Proc_kill (p_pid self)) self
          else (Inl ValueError, [], self)) plat"

definition suspend :: "platform \<Rightarrow> Process \<Rightarrow> answer option outcome" where
  "suspend =
     assert_pid_not_reused
       (\<lambda>plat self.
          if POSIX plat then posix_send_signal plat SIGSTOP self
          else act plat (Proc_suspend (p_pid self)) self)"

definition resume :: "platform \<Rightarrow> Process \<Rightarrow> answer option outcome" where
  "resume =
     assert_pid_not_reused
       (\<lambda>plat self.
          if POSIX plat then posix_send_signal plat SIGCONT self
          else act plat (Proc_resume (p_pid self)) self)"

definition terminate :: "platform \<Rightarrow> Process \<Rightarrow> answer option outcome" where
  "terminate =
     assert_pid_not_reused
       (\<lambda>plat self.
          if POSIX plat then posix_send_signal plat SIGTERM self
          else act plat (Proc_kill (p_pid self)) self)"

definition kill :: "platform \<Rightarrow> Process \<Rightarrow> answer option outcome" where
  "kill =
     assert_pid_not_reused
       (\<lambda>plat self.
          if POSIX plat then posix_send_signal plat SIGKILL self
          else act plat (Proc_kill (p_pid self)) self)"

section \<open>Example platforms and handles\<close>

text \<open>
  A POSIX platform given by its pid list, its creation-time answers and its parent
  answers; every acting call succeeds and no getter is permitted. Used in the worked
  examples only.
\<close>

definition posix_platform ::
  "int list \<Rightarrow> (int \<Rightarrow> error + real) \<Rightarrow> (int \<Rightarrow> error + int option) \<Rightarrow> platform"
where
  "posix_platform ps ct pp =
     \<lparr>POSIX = True, WINDOWS = False, has_ppid_map = False, os_getpid = 1,
      psplatform_pids = ps,
      psplatform_pid_exists = (\<lambda>p. Inr (p \<in> set ps)),
      proc_create_time = ct,
      proc_ppid = pp,
      psplatform_ppid_map = [],
      os_kill = (\<lambda>p s. None),
      proc_query = (\<lambda>p q. Inl (AccessDenied p)),
      proc_do = (\<lambda>c. None)\<rparr>"

text \<open>A handle as \<^verbatim>\<open>Process(pid)\<close> leaves it for a process created at \<open>ct\<close>.\<close>

definition handle :: "int \<Rightarrow> real \<Rightarrow> Process" where
  "handle pid ct =
     \<lparr>p_pid = pid, p_name = None, p_create_time = Some ct, p_gone = False,
      p_ppid = None, p_last_sys_cpu_times = None, p_last_proc_cpu_times = None,
      p_ident = (pid, Some ct), p_returncode = None\<rparr>"

section \<open>children\<close>

text \<open>
  The test \<^verbatim>\<open>self.create_time() <= child.create_time()\<close> inside its \<^verbatim>\<open>try\<close>: \<open>Inr None\<close>
  when \<^verbatim>\<open>NoSuchProcess\<close> was caught, \<open>Inl\<close> for an exception that propagates. Both
  handles come back, since \<^verbatim>\<open>create_time()\<close> caches.
\<close>

definition intime ::
  "platform \<Rightarrow> Process \<Rightarrow> Process \<Rightarrow> (error + bool option) \<times> Process \<times> Process"
where
  "intime plat self child =
     (case create_time plat self of
        (Inl (NoSuchProcess x), s) \<Rightarrow> (Inr None, s, child)
      | (Inl e, s) \<Rightarrow> (Inl e, s, child)
      | (Inr sct, s) \<Rightarrow>
          (case create_time plat child of
             (Inl (NoSuchProcess x), c) \<Rightarrow> (Inr None, s, c)
           | (Inl e, c) \<Rightarrow> (Inl e, s, c)
           | (Inr cct, c) \<Rightarrow> (Inr (Some (sct \<le> cct)), s, c)))"

text \<open>
  Non-recursive mode, the loop over \<^verbatim>\<open>process_iter()\<close>. A loop returns the exception
  that ended it, if any, with \<^verbatim>\<open>self\<close> and \<^verbatim>\<open>ret\<close> as they are then.
\<close>

fun direct_children ::
  "platform \<Rightarrow> Process list \<Rightarrow> Process \<times> Process list \<Rightarrow> error option \<times> Process \<times> Process list"
where
  "direct_children plat [] (self, ret) = (None, self, ret)"
| "direct_children plat (p # ps) (self, ret) =
     (case ppid plat p of
        (Inl (NoSuchProcess x), p') \<Rightarrow> direct_children plat ps (self, ret)
      | (Inl e, p') \<Rightarrow> (Some e, self, ret)
      | (Inr k, p') \<Rightarrow>
          if k = Some (p_pid self) then
            (case intime plat self p' of
               (Inl e, s, c) \<Rightarrow> (Some e, s, ret)
             | (Inr None, s, c) \<Rightarrow> direct_children plat ps (s, ret)
             | (Inr (Some b), s, c) \<Rightarrow>
                 direct_children plat ps (s, if b then ret @ [c] else ret))
          else direct_children plat ps (self, ret))"

text \<open>Non-recursive mode, the loop over \<^verbatim>\<open>ppid_map.items()\<close>.\<close>

fun direct_children_ppid_map ::
  "platform \<Rightarrow> (int \<times> int option) list \<Rightarrow> Process \<times> Process list
   \<Rightarrow> error option \<times> Process \<times> Process list"
where
  "direct_children_ppid_map plat [] (self, ret) = (None, self, ret)"
| "direct_children_ppid_map plat ((pid, k) # rest) (self, ret) =
     (if k = Some (p_pid self) then
        (case Process_init plat (Some pid) False of
           Inl (NoSuchProcess x) \<Rightarrow> direct_children_ppid_map plat rest (self, ret)
         | Inl e \<Rightarrow> (Some e, self, ret)
         | Inr child \<Rightarrow>
             (case intime plat self child of
                (Inl e, s, c) \<Rightarrow> (Some e, s, ret)
              | (Inr None, s, c) \<Rightarrow> direct_children_ppid_map plat rest (s, ret)
              | (Inr (Some b), s, c) \<Rightarrow>
                  direct_children_ppid_map plat rest (s, if b then ret @ [c] else ret)))
      else direct_children_ppid_map plat rest (self, ret))"

text \<open>
  Recursive mode. \<^verbatim>\<open>table\<close> is a \<^verbatim>\<open>defaultdict(list)\<close>: a function from the key to the
  list of processes that have it as their parent, empty by default.
\<close>

type_synonym table = "int option \<Rightarrow> Process list"

fun build_table :: "platform \<Rightarrow> Process list \<Rightarrow> table \<Rightarrow> error + table" where
  "build_table plat [] table = Inr table"
| "build_table plat (p # ps) table =
     (case ppid plat p of
        (Inl (NoSuchProcess x), p') \<Rightarrow> build_table plat ps table
      | (Inl e, p') \<Rightarrow> Inl e
      | (Inr k, p') \<Rightarrow> build_table plat ps (table(k := table k @ [p'])))"

fun build_table_ppid_map ::
  "platform \<Rightarrow> (int \<times> int option) list \<Rightarrow> table \<Rightarrow> error + table"
where
  "build_table_ppid_map plat [] table = Inr table"
| "build_table_ppid_map plat ((pid, k) # rest) table =
     (case Process_init plat (Some pid) False of
        Inl (NoSuchProcess x) \<Rightarrow> build_table_ppid_map plat rest table
      | Inl e \<Rightarrow> Inl e
      | Inr p \<Rightarrow> build_table_ppid_map plat rest (table(k := table k @ [p])))"

text \<open>The inner loop \<^verbatim>\<open>for child in table[pid]\<close> on \<^verbatim>\<open>self\<close>, \<^verbatim>\<open>ret\<close> and \<^verbatim>\<open>checkpids\<close>.\<close>

fun expand ::
  "platform \<Rightarrow> Process list \<Rightarrow> Process \<times> Process list \<times> int list
   \<Rightarrow> error option \<times> Process \<times> Process list \<times> int list"
where
  "expand plat [] (self, ret, checkpids) = (None, self, ret, checkpids)"
| "expand plat (child # cs) (self, ret, checkpids) =
     (case intime plat self child of
        (Inl e, s, c) \<Rightarrow> (Some e, s, ret, checkpids)
      | (Inr None, s, c) \<Rightarrow> expand plat cs (s, ret, checkpids)
      | (Inr (Some b), s, c) \<Rightarrow>
          if b then
            expand plat cs
              (s, ret @ [c],
               if p_pid c \<notin> set checkpids then checkpids @ [p_pid c] else checkpids)
          else expand plat cs (s, ret, checkpids))"

text \<open>
  The outer loop \<^verbatim>\<open>for pid in checkpids\<close>, over a list that grows while it is walked:
  \<open>i\<close> is the position of the iterator. The loop is given fuel, one unit per
  iteration and one for the final test; \<open>None\<close> means the fuel ran out.
\<close>

fun walk ::
  "nat \<Rightarrow> platform \<Rightarrow> table \<Rightarrow> nat \<Rightarrow> Process \<times> Process list \<times> int list
   \<Rightarrow> (error option \<times> Process \<times> Process list \<times> int list) option"
where
  "walk 0 plat table i st = None"
| "walk (Suc fuel) plat table i (self, ret, checkpids) =
     (if i < length checkpids then
        (case expand plat (table (Some (checkpids ! i))) (self, ret, checkpids) of
           (Some e, st') \<Rightarrow> Some (Some e, st')
         | (None, st') \<Rightarrow> walk fuel plat table (i + 1) st')
      else Some (None, self, ret, checkpids))"

text \<open>
  The body of \<^verbatim>\<open>children(recursive)\<close>. \<open>procs\<close> is the sequence of handles that
  \<^verbatim>\<open>process_iter()\<close> yields during the call; it is read only where the platform has no
  \<^verbatim>\<open>ppid_map\<close>.
\<close>

definition children_body ::
  "nat \<Rightarrow> platform \<Rightarrow> Process list \<Rightarrow> bool \<Rightarrow> Process
   \<Rightarrow> ((error + Process list) \<times> Process) option"
where
  "children_body fuel plat procs recursive self =
     (if \<not> recursive then
        (case (if \<not> has_ppid_map plat then direct_children plat procs (self, [])
               else direct_children_ppid_map plat (psplatform_ppid_map plat) (self, [])) of
           (Some e, s, ret) \<Rightarrow> Some (Inl e, s)
         | (None, s, ret) \<Rightarrow> Some (Inr ret, s))
      else
        (case (if \<not> has_ppid_map plat then build_table plat procs (\<lambda>k. [])
               else build_table_ppid_map plat (psplatform_ppid_map plat) (\<lambda>k. [])) of
           Inl e \<Rightarrow> Some (Inl e, self)
         | Inr table \<Rightarrow>
             (case walk fuel plat table 0 (self, [], [p_pid self]) of
                None \<Rightarrow> None
              | Some (Some e, s, ret, checkpids) \<Rightarrow> Some (Inl e, s)
              | Some (None, s, ret, checkpids) \<Rightarrow> Some (Inr ret, s))))"

text \<open>
  \<^verbatim>\<open>children\<close> under its decorator \<^verbatim>\<open>_assert_pid_not_reused\<close>, written out here because
  the body's result is optional.
\<close>

definition children ::
  "nat \<Rightarrow> platform \<Rightarrow> Process list \<Rightarrow> bool \<Rightarrow> Process
   \<Rightarrow> ((error + Process list) \<times> Process) option"
where
  "children fuel plat procs recursive self =
     (case is_running plat self of
        (Inl e, self') \<Rightarrow> Some (Inl e, self')
      | (Inr running, self') \<Rightarrow>
          if \<not> running then Some (Inl (NoSuchProcess (p_pid self')), self')
          else children_body fuel plat procs recursive self')"

text \<open>
  Every handle of \<open>ret\<close> has a creation time, \<open>self\<close> has one, and the handle's is not
  before \<open>self\<close>'s.
\<close>

definition not_older :: "Process \<Rightarrow> Process list \<Rightarrow> bool" where
  "not_older self ret =
     list_all (\<lambda>c. case (p_create_time self, p_create_time c) of
                      (Some a, Some b) \<Rightarrow> a \<le> b
                    | _ \<Rightarrow> False) ret"

text \<open>
  Five processes with inconsistent parent data: 2 and 4 are children of 1, 3 is a child
  of 2, 5 is a child of 4, and 1 is reported as a child of 3, which closes a cycle.
  Process 3 is older than its parent 2 but younger than 1; process 4 is older than 1.
\<close>

definition family_platform :: platform where
  "family_platform =
     posix_platform [1, 2, 3, 4, 5]
       (\<lambda>p. Inr (if p = 1 then 10 else if p = 2 then 30 else if p = 3 then 20
                   else if p = 4 then 5 else 40))
       (\<lambda>p. Inr (Some (if p = 1 then 3 else if p = 2 then 1 else if p = 3 then 2
                         else if p = 4 then 1 else 4)))"

definition family_procs :: "Process list" where
  "family_procs = [handle 1 10, handle 2 30, handle 3 20, handle 4 5, handle 5 40]"

section \<open>wait_procs\<close>

text \<open>
  What \<^verbatim>\<open>wait_procs\<close> meets outside itself, over a world \<open>'w\<close> that each call may
  change: \<^verbatim>\<open>_timer()\<close>, the platform's \<^verbatim>\<open>self._proc.wait(timeout)\<close> (it answers the exit
  code, None, or raises; \<^verbatim>\<open>TimeoutExpired\<close> when the process is still alive), the
  platform that \<^verbatim>\<open>is_running()\<close> sees in a world, and the order in which Python
  iterates over a set of handles, which the language leaves open.
\<close>

record 'w environment =
  env_timer :: "'w \<Rightarrow> real \<times> 'w"
  env_wait :: "Process \<Rightarrow> real option \<Rightarrow> 'w \<Rightarrow> (error + int option) \<times> 'w"
  env_platform :: "'w \<Rightarrow> platform"
  env_order :: "Process list \<Rightarrow> Process list"

text \<open>\<^verbatim>\<open>Process.wait(timeout)\<close>.\<close>

definition Process_wait ::
  "'w environment \<Rightarrow> real option \<Rightarrow> Process \<Rightarrow> 'w \<Rightarrow> (error + int option) \<times> 'w"
where
  "Process_wait env timeout self w =
     (if (case timeout of None \<Rightarrow> False | Some t \<Rightarrow> \<not> t \<ge> 0) then (Inl ValueError, w)
      else env_wait env self timeout w)"

text \<open>
  A Python set of handles: \<^verbatim>\<open>__eq__\<close> and \<^verbatim>\<open>__hash__\<close> go by \<^verbatim>\<open>_ident\<close>, so a set holds one
  handle for each identity. It is kept as a list in insertion order; a loop over the set
  and \<^verbatim>\<open>list(...)\<close> of it go through \<open>env_order\<close>.
\<close>

definition set_add :: "Process \<Rightarrow> Process list \<Rightarrow> Process list" where
  "set_add p s = (if p_ident p \<in> p_ident ` set s then s else s @ [p])"

definition py_set :: "Process list \<Rightarrow> Process list" where
  "py_set procs = foldl (\<lambda>s p. set_add p s) [] procs"

definition set_minus :: "Process list \<Rightarrow> Process list \<Rightarrow> Process list" where
  "set_minus a g = filter (\<lambda>p. p_ident p \<notin> p_ident ` set g) a"

text \<open>
  The local variables \<^verbatim>\<open>gone\<close>, \<^verbatim>\<open>alive\<close> and \<^verbatim>\<open>timeout\<close>, the world, and a trace that is
  not in the source: one entry for each invocation of the callback, with its argument
  and the values of \<^verbatim>\<open>gone\<close> and \<^verbatim>\<open>alive\<close> at that moment.
\<close>

record 'w wstate =
  ws_gone :: "Process list"
  ws_alive :: "Process list"
  ws_timeout :: "real option"
  ws_world :: 'w
  ws_trace :: "(Process \<times> Process list \<times> Process list) list"

text \<open>
  A callback takes the handle and the world; it may raise. The lines
  \<^verbatim>\<open>proc.returncode = returncode; gone.add(proc); callback(proc)\<close>:
\<close>

type_synonym 'w callback = "Process \<Rightarrow> 'w \<Rightarrow> error option \<times> 'w"

definition mark_gone ::
  "'w callback option \<Rightarrow> Process \<Rightarrow> int option \<Rightarrow> 'w wstate \<Rightarrow> error option \<times> 'w wstate"
where
  "mark_gone callback proc returncode st =
     (let proc' = proc\<lparr>p_returncode := Some returncode\<rparr>;
          st' = st\<lparr>ws_gone := set_add proc' (ws_gone st)\<rparr>
      in case callback of
           None \<Rightarrow> (None, st')
         | Some cb \<Rightarrow>
             (case cb proc' (ws_world st') of
                (raised, w) \<Rightarrow>
                  (raised,
                   st'\<lparr>ws_world := w,
                       ws_trace := ws_trace st' @ [(proc', ws_gone st', ws_alive st')]\<rparr>)))"

definition check_gone ::
  "'w environment \<Rightarrow> 'w callback option \<Rightarrow> Process \<Rightarrow> real \<Rightarrow> 'w wstate
   \<Rightarrow> error option \<times> 'w wstate"
where
  "check_gone env callback proc timeout st =
     (case Process_wait env (Some timeout) proc (ws_world st) of
        (Inl TimeoutExpired, w) \<Rightarrow> (None, st\<lparr>ws_world := w\<rparr>)
      | (Inl e, w) \<Rightarrow> (Some e, st\<lparr>ws_world := w\<rparr>)
      | (Inr returncode, w) \<Rightarrow>
          if returncode \<noteq> None then mark_gone callback proc returncode (st\<lparr>ws_world := w\<rparr>)
          else
            (case is_running (env_platform env w) proc of
               (Inl e, proc') \<Rightarrow> (Some e, st\<lparr>ws_world := w\<rparr>)
             | (Inr running, proc') \<Rightarrow>
                 if \<not> running then mark_gone callback proc' returncode (st\<lparr>ws_world := w\<rparr>)
                 else (None, st\<lparr>ws_world := w\<rparr>)))"

text \<open>
  The loop \<^verbatim>\<open>for proc in alive\<close> inside the \<^verbatim>\<open>while\<close>, over what is left of \<^verbatim>\<open>alive\<close>.
  A \<^verbatim>\<open>break\<close> ends it like the end of the list does.
\<close>

fun sweep ::
  "'w environment \<Rightarrow> 'w callback option \<Rightarrow> real \<Rightarrow> Process list \<Rightarrow> 'w wstate
   \<Rightarrow> error option \<times> 'w wstate"
where
  "sweep env callback deadline [] st = (None, st)"
| "sweep env callback deadline (proc # rest) st =
     (case py_div 1 (real (length (ws_alive st))) of
        Inl e \<Rightarrow> (Some e, st)
      | Inr max_timeout \<Rightarrow>
          (if ws_timeout st \<noteq> None then
             (case env_timer env (ws_world st) of
                (now, w) \<Rightarrow>
                  (let timeout = min (deadline - now) max_timeout;
                       st1 = st\<lparr>ws_timeout := Some timeout, ws_world := w\<rparr>
                   in if timeout \<le> 0 then (None, st1)
                      else
                        (case check_gone env callback proc timeout st1 of
                           (Some e, st2) \<Rightarrow> (Some e, st2)
                         | (None, st2) \<Rightarrow> sweep env callback deadline rest st2)))
           else
             (case check_gone env callback proc max_timeout st of
                (Some e, st2) \<Rightarrow> (Some e, st2)
              | (None, st2) \<Rightarrow> sweep env callback deadline rest st2)))"

text \<open>
  The \<^verbatim>\<open>while alive\<close> loop, with fuel: one unit for each test of the loop condition.
  \<open>None\<close> means the fuel ran out.
\<close>

fun while_alive ::
  "nat \<Rightarrow> 'w environment \<Rightarrow> 'w callback option \<Rightarrow> real \<Rightarrow> 'w wstate
   \<Rightarrow> (error option \<times> 'w wstate) option"
where
  "while_alive 0 env callback deadline st = None"
| "while_alive (Suc fuel) env callback deadline st =
     (if ws_alive st = [] then Some (None, st)
      else if (case ws_timeout st of None \<Rightarrow> False | Some t \<Rightarrow> t \<le> 0) then Some (None, st)
      else
        (case sweep env callback deadline (env_order env (ws_alive st)) st of
           (Some e, st') \<Rightarrow> Some (Some e, st')
         | (None, st') \<Rightarrow>
             while_alive fuel env callback deadline
               (st'\<lparr>ws_alive := set_minus (ws_alive st') (ws_gone st')\<rparr>)))"

text \<open>The last attempt: \<^verbatim>\<open>for proc in alive: check_gone(proc, 0)\<close>.\<close>

fun last_attempt ::
  "'w environment \<Rightarrow> 'w callback option \<Rightarrow> Process list \<Rightarrow> 'w wstate
   \<Rightarrow> error option \<times> 'w wstate"
where
  "last_attempt env callback [] st = (None, st)"
| "last_attempt env callback (proc # rest) st =
     (case check_gone env callback proc 0 st of
        (Some e, st') \<Rightarrow> (Some e, st')
      | (None, st') \<Rightarrow> last_attempt env callback rest st')"

text \<open>
  \<^verbatim>\<open>wait_procs(procs, timeout, callback)\<close> in world \<open>w\<close>. The result is the exception or
  the pair \<^verbatim>\<open>(list(gone), list(alive))\<close>, beside the final state. A callback that is
  no callable is excluded by the type.
\<close>

definition wait_procs ::
  "nat \<Rightarrow> 'w environment \<Rightarrow> Process list \<Rightarrow> real option \<Rightarrow> 'w callback option \<Rightarrow> 'w
   \<Rightarrow> ((error + Process list \<times> Process list) \<times> 'w wstate) option"
where
  "wait_procs fuel env procs timeout callback w =
     (let st0 = \<lparr>ws_gone = [], ws_alive = py_set procs, ws_timeout = timeout,
                 ws_world = w, ws_trace = []\<rparr>
      in if (case timeout of None \<Rightarrow> False | Some t \<Rightarrow> \<not> t \<ge> 0)
         then Some (Inl ValueError, st0\<lparr>ws_alive := []\<rparr>)
         else
           (case (case timeout of
                    None \<Rightarrow> (0, st0)
                  | Some t \<Rightarrow>
                      (case env_timer env w of
                         (now, w') \<Rightarrow> (now + t, st0\<lparr>ws_world := w'\<rparr>))) of
              (deadline, st1) \<Rightarrow>
                (case while_alive fuel env callback deadline st1 of
                   None \<Rightarrow> None
                 | Some (Some e, st2) \<Rightarrow> Some (Inl e, st2)
                 | Some (None, st2) \<Rightarrow>
                     if ws_alive st2 \<noteq> [] then
                       (case last_attempt env callback (env_order env (ws_alive st2)) st2 of
                          (Some e, st3) \<Rightarrow> Some (Inl e, st3)
                        | (None, st3) \<Rightarrow>
                            (let st4 = st3\<lparr>ws_alive := set_minus (ws_alive st3) (ws_gone st3)\<rparr>
                             in Some (Inr (env_order env (ws_gone st4),
                                           env_order env (ws_alive st4)), st4)))
                     else Some (Inr (env_order env (ws_gone st2),
                                     env_order env (ws_alive st2)), st2))))"

text \<open>
  What holds of the state of \<^verbatim>\<open>wait_procs\<close> at every moment of a run on \<open>procs\<close>:
  \<^verbatim>\<open>gone\<close> and \<^verbatim>\<open>alive\<close> hold each identity once, the handles of \<^verbatim>\<open>alive\<close> are input
  handles, together the two sets cover the identities of the input, a handle of
  \<^verbatim>\<open>gone\<close> is an input handle with its \<^verbatim>\<open>returncode\<close> set (and possibly \<^verbatim>\<open>_gone\<close>), the
  callback (if there is one) has run on the handles of \<^verbatim>\<open>gone\<close>, in their order, and at
  each invocation the handle was in \<^verbatim>\<open>gone\<close> and its identity still in \<^verbatim>\<open>alive\<close>.
\<close>

definition idents :: "Process list \<Rightarrow> (int \<times> real option) set" where
  "idents ps = p_ident ` set ps"

definition wp_inv :: "Process list \<Rightarrow> 'w callback option \<Rightarrow> 'w wstate \<Rightarrow> bool" where
  "wp_inv procs callback st \<longleftrightarrow>
     distinct (map p_ident (ws_gone st)) \<and>
     distinct (map p_ident (ws_alive st)) \<and>
     set (ws_alive st) \<subseteq> set procs \<and>
     idents (ws_gone st) \<union> idents (ws_alive st) = idents procs \<and>
     (\<forall>p\<in>set (ws_gone st).
        p_returncode p \<noteq> None \<and>
        (\<exists>q\<in>set procs. \<exists>rc g. p = q\<lparr>p_gone := g, p_returncode := rc\<rparr>)) \<and>
     (callback \<noteq> None \<longrightarrow> map fst (ws_trace st) = ws_gone st) \<and>
     (\<forall>(p, g, a)\<in>set (ws_trace st). p \<in> set g \<and> p_ident p \<in> idents a)"

text \<open>
  The iteration order of a set is some arrangement of its elements.
\<close>

definition set_iteration :: "'w environment \<Rightarrow> bool" where
  "set_iteration env \<longleftrightarrow>
     (\<forall>s. set (env_order env s) = set s \<and> length (env_order env s) = length s)"

text \<open>
  A clock that advances: \<open>clk\<close> reads the time of a world, every reading of
  \<^verbatim>\<open>_timer()\<close> is at least that time and leaves a world at least \<open>\<delta>\<close> later, and
  neither waiting for a process nor the callback turns the time back.
\<close>

definition ticking ::
  "'w environment \<Rightarrow> 'w callback option \<Rightarrow> ('w \<Rightarrow> real) \<Rightarrow> real \<Rightarrow> bool"
where
  "ticking env callback clk \<delta> \<longleftrightarrow>
     0 < \<delta> \<and>
     (\<forall>w now w'. env_timer env w = (now, w') \<longrightarrow> clk w \<le> now \<and> now + \<delta> \<le> clk w') \<and>
     (\<forall>p t w r w'. env_wait env p t w = (r, w') \<longrightarrow> clk w \<le> clk w') \<and>
     (\<forall>cb p w e w'. callback = Some cb \<longrightarrow> cb p w = (e, w') \<longrightarrow> clk w \<le> clk w')"

text \<open>
  Surroundings in which no call that \<^verbatim>\<open>wait_procs\<close> makes on the handles \<open>procs\<close> raises,
  \<^verbatim>\<open>TimeoutExpired\<close> from waiting apart: the platform's wait raises nothing else,
  \<^verbatim>\<open>is_running()\<close> answers on every input handle, and the callback returns.
\<close>

definition benign :: "'w environment \<Rightarrow> Process list \<Rightarrow> 'w callback option \<Rightarrow> bool" where
  "benign env procs callback \<longleftrightarrow>
     (\<forall>p t w e w'. env_wait env p t w = (Inl e, w') \<longrightarrow> e = TimeoutExpired) \<and>
     (\<forall>w. \<forall>p\<in>set procs. \<exists>b. fst (is_running (env_platform env w) p) = Inr b) \<and>
     (\<forall>cb p w. callback = Some cb \<longrightarrow> fst (cb p w) = None)"

text \<open>
  An example of surroundings, used in the worked examples only. The world is the time:
  every reading of the timer takes one second, waiting takes none and answers by
  handle, the platform is the same at every moment, and a set is iterated in
  insertion order.
\<close>

definition clock_env ::
  "(Process \<Rightarrow> error + int option) \<Rightarrow> platform \<Rightarrow> real environment"
where
  "clock_env wait_answer plat =
     \<lparr>env_timer = (\<lambda>w. (w, w + 1)),
      env_wait = (\<lambda>p t w. (wait_answer p, w)),
      env_platform = (\<lambda>w. plat),
      env_order = (\<lambda>s. s)\<rparr>"

text \<open>The platform on which no process exists.\<close>

definition empty_platform :: platform where
  "empty_platform = posix_platform [] (\<lambda>p. Inl (NoSuchProcess p)) (\<lambda>p. Inr None)"

section \<open>Properties of pid_exists\<close>

text \<open>
  C10. For every negative pid, \<^verbatim>\<open>pid_exists(pid)\<close> returns False without consulting the
  platform provider: the answer is \<open>Inr False\<close> on every platform, whatever its queries
  answer and even where all of them raise, so a negative pid is never reported as
  existing and never yields a provider error.
\<close>

theorem pid_exists_negative:
  "pid < 0 \<Longrightarrow> pid_exists plat pid = Inr False"
  by (simp add: pid_exists_def)

theorem pid_exists_negative_witness:
  "pid_exists
     \<lparr>POSIX = True, WINDOWS = False, has_ppid_map = False, os_getpid = 1,
      psplatform_pids = [-7],
      psplatform_pid_exists = (\<lambda>p. Inl (AccessDenied p)),
      proc_create_time = (\<lambda>p. Inl (NoSuchProcess p)),
      proc_ppid = (\<lambda>p. Inl (NoSuchProcess p)),
      psplatform_ppid_map = [],
      os_kill = (\<lambda>p s. None),
      proc_query = (\<lambda>p q. Inl (AccessDenied p)),
      proc_do = (\<lambda>c. None)\<rparr> (-7) = Inr False"
  using pid_exists_negative [of "-7"] by simp

section \<open>Properties of cpu_times_percent\<close>

lemma round1_0: "round1 0 = 0"
  by (simp add: round1_def)

lemma field_percent_spec:
  "field_percent w fd ad = spec_field_percent w fd ad"
  by (auto simp: field_percent_def spec_field_percent_def py_div_def round1_0 Let_def)

lemma calculate_fields_spec:
  "set fs \<subseteq> set (field_names t1) \<Longrightarrow> set fs \<subseteq> set (field_names t2) \<Longrightarrow>
   calculate_fields w ad fs t1 t2 =
     Inr (map (\<lambda>f. (f, spec_field_percent w (field_value t2 f - field_value t1 f) ad)) fs)"
proof (induction fs)
  case Nil
  then show ?case by simp
next
  case (Cons f fs)
  from Cons.prems have "map_of t1 f \<noteq> None" "map_of t2 f \<noteq> None"
    by (simp_all add: field_names_def map_of_eq_None_iff)
  then obtain v1 v2 where v1: "map_of t1 f = Some v1" and v2: "map_of t2 f = Some v2"
    by blast
  from Cons show ?case
    by (simp add: getattr_def v1 v2 field_value_def field_percent_spec)
qed

lemma calculate_tp_spec:
  assumes "field_names t2 = field_names t1"
  shows "calculate_tp w t1 t2 =
     Inr (map (\<lambda>f. (f, spec_field_percent w (field_value t2 f - field_value t1 f)
                          (sum_nt t2 - sum_nt t1))) (field_names t1))"
  using assms by (simp add: calculate_tp_def calculate_fields_spec)

text \<open>
  C9. For two successive CPU-time samples \<open>t1\<close> (the stored one, or the one read before
  the sleep when blocking) and \<open>cpu_times after\<close>, both namedtuples of the same type,
  \<^verbatim>\<open>cpu_times_percent\<close> returns for each named field, independently, the rounded
  percentage of that field's delta in the delta of the sum of all fields, \<open>0.0\<close> when
  the total delta is zero, and stores the new sample. The clamp into \<open>[0, 100]\<close> is
  applied exactly when the provider flag \<^verbatim>\<open>_WINDOWS\<close> is set (\<open>spec_field_percent\<close>
  receives the flag as its clamp switch). On the synthetic samples with user delta 5,
  idle delta 95 and all others 0, without clamping, the user field is 5.0 and the idle
  field is 95.0.
\<close>

theorem cpu_times_percent_fields:
  assumes "field_names (cpu_times after) = field_names t1"
    and "t1 = (if is_blocking interval then cpu_times before else last_cpu_times_2 st)"
  shows "cpu_times_percent windows interval False before after st =
           (Inr (Whole (map (\<lambda>f. (f, spec_field_percent windows
                                      (field_value (cpu_times after) f - field_value t1 f)
                                      (sum_nt (cpu_times after) - sum_nt t1)))
                          (field_names t1))),
            st\<lparr>last_cpu_times_2 := cpu_times after\<rparr>)
         \<and> calculate_tp False
              [(''user'', 0), (''system'', 0), (''idle'', 0)]
              [(''user'', 5), (''system'', 0), (''idle'', 95)]
            = Inr [(''user'', 5), (''system'', 0), (''idle'', 95)]"
proof
  show "cpu_times_percent windows interval False before after st =
           (Inr (Whole (map (\<lambda>f. (f, spec_field_percent windows
                                      (field_value (cpu_times after) f - field_value t1 f)
                                      (sum_nt (cpu_times after) - sum_nt t1)))
                          (field_names t1))),
            st\<lparr>last_cpu_times_2 := cpu_times after\<rparr>)"
    using assms by (simp add: cpu_times_percent_def calculate_tp_spec Let_def)
  show "calculate_tp False
              [(''user'', 0), (''system'', 0), (''idle'', 0)]
              [(''user'', 5), (''system'', 0), (''idle'', 95)]
            = Inr [(''user'', 5), (''system'', 0), (''idle'', 95)]"
    by (simp add: calculate_tp_def field_names_def getattr_def sum_nt_def
        field_percent_def py_div_def round1_def)
qed

text \<open>
  A run on the clamping provider: the system counter regresses by 1 out of a total
  delta of 100, the rounded \<open>-1.0\<close> is clamped to \<open>0\<close>.
\<close>

theorem cpu_times_percent_fields_witness:
  "cpu_times_percent True None False
      \<lparr>cpu_times = [], per_cpu_times = []\<rparr>
      \<lparr>cpu_times = [(''user'', 15), (''system'', 3), (''idle'', 196)], per_cpu_times = []\<rparr>
      (module_import \<lparr>cpu_times = [(''user'', 10), (''system'', 4), (''idle'', 100)],
                         per_cpu_times = []\<rparr>)
   = (Inr (Whole [(''user'', 5), (''system'', 0), (''idle'', 96)]),
      (module_import \<lparr>cpu_times = [(''user'', 10), (''system'', 4), (''idle'', 100)],
                         per_cpu_times = []\<rparr>)
        \<lparr>last_cpu_times_2 := [(''user'', 15), (''system'', 3), (''idle'', 196)]\<rparr>)"
  using cpu_times_percent_fields [of
      "\<lparr>cpu_times = [(''user'', 15), (''system'', 3), (''idle'', 196)], per_cpu_times = []\<rparr>"
      "[(''user'', 10), (''system'', 4), (''idle'', 100)]"
      None "\<lparr>cpu_times = [], per_cpu_times = []\<rparr>"
      "module_import \<lparr>cpu_times = [(''user'', 10), (''system'', 4), (''idle'', 100)],
                         per_cpu_times = []\<rparr>" True]
  by (simp add: module_import_def is_blocking_def field_names_def field_value_def
      sum_nt_def spec_field_percent_def round1_def)

section \<open>Properties of the CPU utilisation samplers\<close>

lemma Process_cpu_percent_no_sample:
  assumes "\<not> is_blocking interval"
    and "p_last_sys_cpu_times self = None \<or> p_last_proc_cpu_times self = None"
    and "proc_cpu_times after = Inr pt2"
  shows "Process_cpu_percent posix num_cpus interval before after self =
           (Inr 0, self\<lparr>p_last_sys_cpu_times := Some (timer posix num_cpus after),
                        p_last_proc_cpu_times := Some pt2\<rparr>)"
  using assms
  by (auto simp: Process_cpu_percent_def Let_def split: option.splits sum.splits)

lemma cpu_percent_since_import:
  assumes "\<not> is_blocking interval"
  shows "cpu_percent interval False before after (module_import r0) =
           ((case calculate (cpu_times r0) (cpu_times after) of
               Inl e \<Rightarrow> Inl e | Inr v \<Rightarrow> Inr (Whole v)),
            (module_import r0)\<lparr>last_cpu_times := cpu_times after\<rparr>)"
  using assms
  by (auto simp: cpu_percent_def module_import_def Let_def split: sum.splits)

text \<open>
  C3. The docstring of the system-wide \<^verbatim>\<open>cpu_percent\<close> says that its first
  non-blocking call (interval None or 0.0) returns a meaningless \<open>0.0\<close>, and the first
  non-blocking call of \<^verbatim>\<open>Process.cpu_percent\<close> on a fresh handle does return \<open>0.0\<close>
  and stores the sample. The system-wide function does not: the module holds the sample
  taken at import, so the first call after import, with half of the time since import
  spent busy, returns \<open>50.0\<close> (and stores the current sample), for interval None and
  for interval \<open>0.0\<close> alike.
\<close>

theorem first_cpu_percent_since_import:
  "cpu_percent None False
     \<lparr>cpu_times = [], per_cpu_times = []\<rparr>
     \<lparr>cpu_times = [(''user'', 2), (''system'', 0), (''idle'', 2)], per_cpu_times = []\<rparr>
     (module_import
        \<lparr>cpu_times = [(''user'', 1), (''system'', 0), (''idle'', 1)], per_cpu_times = []\<rparr>)
   = (Inr (Whole 50),
      (module_import
        \<lparr>cpu_times = [(''user'', 1), (''system'', 0), (''idle'', 1)], per_cpu_times = []\<rparr>)
      \<lparr>last_cpu_times := [(''user'', 2), (''system'', 0), (''idle'', 2)]\<rparr>)
   \<and> cpu_percent (Some 0) False
     \<lparr>cpu_times = [], per_cpu_times = []\<rparr>
     \<lparr>cpu_times = [(''user'', 2), (''system'', 0), (''idle'', 2)], per_cpu_times = []\<rparr>
     (module_import
        \<lparr>cpu_times = [(''user'', 1), (''system'', 0), (''idle'', 1)], per_cpu_times = []\<rparr>)
   = (Inr (Whole 50),
      (module_import
        \<lparr>cpu_times = [(''user'', 1), (''system'', 0), (''idle'', 1)], per_cpu_times = []\<rparr>)
      \<lparr>last_cpu_times := [(''user'', 2), (''system'', 0), (''idle'', 2)]\<rparr>)
   \<and> Process_cpu_percent True 4 None
     \<lparr>timer_value = 0, sys_cpu_times = [], proc_cpu_times = Inl (AccessDenied 7)\<rparr>
     \<lparr>timer_value = 100, sys_cpu_times = [], proc_cpu_times = Inr (3, 2)\<rparr>
     (handle 7 1)
   = (Inr 0, (handle 7 1)\<lparr>p_last_sys_cpu_times := Some 400,
                             p_last_proc_cpu_times := Some (3, 2)\<rparr>)"
  by (simp add: cpu_percent_def module_import_def is_blocking_def calculate_def getattr_def
      sum_nt_def py_div_def round1_def Process_cpu_percent_def timer_def handle_def)





section \<open>Properties of is_running\<close>

lemma is_running_gone: "p_gone self \<Longrightarrow> is_running plat self = (Inr False, self)"
  by (simp add: is_running_def)

lemma is_running_seq_gone:
  "p_gone self \<Longrightarrow> is_running_seq plats self = (replicate (length plats) (Inr False), self)"
  by (induction plats) (simp_all add: is_running_gone)

lemma posix_send_signal_sets_gone:
  "os_kill plat (p_pid self) sig = Some ESRCH \<Longrightarrow>
   p_gone (snd (snd (posix_send_signal plat sig self)))"
  by (simp add: posix_send_signal_def)

lemma is_running_step:
  assumes "0 \<le> p_pid self" and "\<not> p_gone self"
  shows "is_running plat self =
     (case proc_create_time plat (p_pid self) of
        Inr ct \<Rightarrow> (Inr (p_ident self = (p_pid self, Some ct)), self)
      | Inl (NoSuchProcess x) \<Rightarrow> (Inr False, self\<lparr>p_gone := True\<rparr>)
      | Inl (AccessDenied x) \<Rightarrow> (Inr (p_ident self = (p_pid self, None)), self)
      | Inl e \<Rightarrow> (Inl e, self))"
  using assms
  by (auto simp: is_running_def Process_init_def create_time_def Process_eq_def
      split: sum.splits error.splits)

lemma is_running_handle_after:
  assumes "0 \<le> p_pid self"
  shows "snd (is_running plat self) =
     self\<lparr>p_gone := p_gone self
                      \<or> (\<exists>x. proc_create_time plat (p_pid self) = Inl (NoSuchProcess x))\<rparr>"
proof (cases "p_gone self")
  case True
  then show ?thesis by (cases self) (simp add: is_running_def)
next
  case False
  then have "self\<lparr>p_gone := False\<rparr> = self" by (cases self) simp
  with False show ?thesis
    by (simp add: is_running_step [OF assms False] split: sum.splits error.splits)
qed

lemma is_running_answer:
  assumes "0 \<le> p_pid self" and "fst (p_ident self) = p_pid self"
  shows "(fst (is_running plat self) = Inr True) =
     (\<not> p_gone self \<and>
      (case snd (p_ident self) of
         Some ct \<Rightarrow> proc_create_time plat (p_pid self) = Inr ct
       | None \<Rightarrow> (\<exists>x. proc_create_time plat (p_pid self) = Inl (AccessDenied x))))"
proof (cases "p_gone self")
  case True
  then show ?thesis by (simp add: is_running_def)
next
  case False
  with assms(2) show ?thesis
    by (cases "p_ident self")
       (auto simp: is_running_step [OF assms(1) False] split: sum.splits error.splits option.splits)
qed

lemma is_running_seq_handle_after:
  assumes "0 \<le> p_pid self"
  shows "snd (is_running_seq plats self) =
     self\<lparr>p_gone := p_gone self
                      \<or> (\<exists>j<length plats. \<exists>x. proc_create_time (plats ! j) (p_pid self)
                                                 = Inl (NoSuchProcess x))\<rparr>"
  using assms
proof (induction plats arbitrary: self)
  case Nil
  then show ?case by simp
next
  case (Cons plat plats)
  let ?s = "snd (is_running plat self)"
  have s: "?s = self\<lparr>p_gone := p_gone self
                      \<or> (\<exists>x. proc_create_time plat (p_pid self) = Inl (NoSuchProcess x))\<rparr>"
    by (rule is_running_handle_after [OF Cons.prems])
  then have pid: "p_pid ?s = p_pid self" by (metis Process.select_convs(1) Process.surjective Process.update_convs(4))
  have "snd (is_running_seq (plat # plats) self) = snd (is_running_seq plats ?s)"
    by (simp split: prod.splits)
  also have "\<dots> = ?s\<lparr>p_gone := p_gone ?s
                      \<or> (\<exists>j<length plats. \<exists>x. proc_create_time (plats ! j) (p_pid ?s)
                                                 = Inl (NoSuchProcess x))\<rparr>"
    by (rule Cons.IH) (simp add: pid Cons.prems)
  also have "\<dots> = self\<lparr>p_gone := p_gone self
                      \<or> (\<exists>j<length (plat # plats). \<exists>x.
                            proc_create_time ((plat # plats) ! j) (p_pid self)
                                                 = Inl (NoSuchProcess x))\<rparr>"
  proof -
    have flag: "(p_gone ?s
                      \<or> (\<exists>j<length plats. \<exists>x. proc_create_time (plats ! j) (p_pid ?s)
                                                 = Inl (NoSuchProcess x)))
       = (p_gone self
                      \<or> (\<exists>j<length (plat # plats). \<exists>x.
                            proc_create_time ((plat # plats) ! j) (p_pid self)
                                                 = Inl (NoSuchProcess x)))"
      unfolding pid by (simp only: s) (auto simp add: Ex_less_Suc2 simp del: Ex_less_Suc)
    show ?thesis unfolding flag by (simp only: s) simp
  qed
  finally show ?case .
qed


lemma is_running_seq_Cons:
  "fst (is_running_seq (plat # plats) self) =
     fst (is_running plat self) # fst (is_running_seq plats (snd (is_running plat self)))"
  by (simp split: prod.splits)

lemma is_running_seq_answer:
  assumes "0 \<le> p_pid self" and "fst (p_ident self) = p_pid self" and "i < length plats"
  shows "(fst (is_running_seq plats self) ! i = Inr True) =
     (\<not> p_gone self
      \<and> (\<forall>j<i. \<forall>x. proc_create_time (plats ! j) (p_pid self) \<noteq> Inl (NoSuchProcess x))
      \<and> (case snd (p_ident self) of
           Some ct \<Rightarrow> proc_create_time (plats ! i) (p_pid self) = Inr ct
         | None \<Rightarrow> (\<exists>x. proc_create_time (plats ! i) (p_pid self) = Inl (AccessDenied x))))"
  using assms
proof (induction plats arbitrary: self i)
  case Nil
  then show ?case by simp
next
  case (Cons plat plats)
  let ?s = "snd (is_running plat self)"
  have s: "?s = self\<lparr>p_gone := p_gone self
                      \<or> (\<exists>x. proc_create_time plat (p_pid self) = Inl (NoSuchProcess x))\<rparr>"
    by (rule is_running_handle_after [OF Cons.prems(1)])
  have pid: "p_pid ?s = p_pid self" and ident: "p_ident ?s = p_ident self"
    and gone: "p_gone ?s = (p_gone self
                      \<or> (\<exists>x. proc_create_time plat (p_pid self) = Inl (NoSuchProcess x)))"
    by (subst s, simp)+
  show ?case
  proof (cases i)
    case 0
    then show ?thesis
      by (simp add: is_running_seq_Cons is_running_answer [OF Cons.prems(1,2)]
          del: is_running_seq.simps cong: option.case_cong)
  next
    case (Suc k)
    with Cons.prems have k: "k < length plats" by simp
    have "(fst (is_running_seq plats ?s) ! k = Inr True) =
     (\<not> p_gone ?s
      \<and> (\<forall>j<k. \<forall>x. proc_create_time (plats ! j) (p_pid ?s) \<noteq> Inl (NoSuchProcess x))
      \<and> (case snd (p_ident ?s) of
           Some ct \<Rightarrow> proc_create_time (plats ! k) (p_pid ?s) = Inr ct
         | None \<Rightarrow> (\<exists>x. proc_create_time (plats ! k) (p_pid ?s) = Inl (AccessDenied x))))"
      by (rule Cons.IH) (simp_all add: pid ident Cons.prems k)
    then show ?thesis
      unfolding pid ident gone Suc
      by (simp add: is_running_seq_Cons All_less_Suc2 del: is_running_seq.simps All_less_Suc
          cong: option.case_cong)
  qed
qed

lemma is_running_seq_sticky:
  assumes "0 \<le> p_pid self" and "i < length plats"
    and "p_gone self \<or> (\<exists>j<i. \<exists>x. proc_create_time (plats ! j) (p_pid self)
                                  = Inl (NoSuchProcess x))"
  shows "fst (is_running_seq plats self) ! i = Inr False"
  using assms
proof (induction plats arbitrary: self i)
  case Nil
  then show ?case by simp
next
  case (Cons plat plats)
  let ?s = "snd (is_running plat self)"
  have s: "?s = self\<lparr>p_gone := p_gone self
                      \<or> (\<exists>x. proc_create_time plat (p_pid self) = Inl (NoSuchProcess x))\<rparr>"
    by (rule is_running_handle_after [OF Cons.prems(1)])
  have pid: "p_pid ?s = p_pid self"
    and gone: "p_gone ?s = (p_gone self
                      \<or> (\<exists>x. proc_create_time plat (p_pid self) = Inl (NoSuchProcess x)))"
    by (subst s, simp)+
  show ?case
  proof (cases i)
    case 0
    with Cons.prems(3) have "p_gone self" by simp
    then show ?thesis
      by (simp add: 0 is_running_seq_Cons is_running_gone del: is_running_seq.simps)
  next
    case (Suc k)
    with Cons.prems have k: "k < length plats" by simp
    from Cons.prems(3) have "p_gone ?s \<or> (\<exists>j<k. \<exists>x. proc_create_time (plats ! j) (p_pid ?s)
                                  = Inl (NoSuchProcess x))"
      unfolding pid gone Suc by (auto simp add: Ex_less_Suc2 simp del: Ex_less_Suc)
    from Cons.IH [OF _ k this] have "fst (is_running_seq plats ?s) ! k = Inr False"
      by (simp add: pid Cons.prems)
    then show ?thesis
      by (simp add: Suc is_running_seq_Cons del: is_running_seq.simps)
  qed
qed

text \<open>
  A handle for pid 5 created at time 10. First the pid is held by a process created at
  time 20: \<^verbatim>\<open>is_running()\<close> is False, and the handle is left as it was. Then the pid
  is held by a process created at time 10: \<^verbatim>\<open>is_running()\<close> is True again.
\<close>

theorem gone_is_sticky_counterexample:
  "is_running_seq
     [posix_platform [5] (\<lambda>p. Inr 20) (\<lambda>p. Inr (Some 1)),
      posix_platform [5] (\<lambda>p. Inr 10) (\<lambda>p. Inr (Some 1))]
     (handle 5 10)
   = ([Inr False, Inr True], handle 5 10)"
  by (simp add: is_running_def Process_init_def create_time_def Process_eq_def
      posix_platform_def handle_def)

text \<open>
  C2 (amended). The \<^verbatim>\<open>_gone\<close> flag is sticky; a False answer that did not set it is
  not. Take a handle with a non-negative pid, whose identity carries that pid, and
  successive \<^verbatim>\<open>is_running()\<close> calls on it, one platform snapshot per call.
  Once the flag is set, or an earlier call has found no process with the pid
  (\<^verbatim>\<open>NoSuchProcess\<close>), the call returns False, whatever the platform answers then.
  The call returns True exactly when the flag was not set at the start, no earlier call
  has found no process with the pid, and the platform reports at this call the cached
  creation time for the pid (or denies access to it, for a handle that cached none):
  the handle is never revived by a process with another creation time, but a False
  caused by PID reuse does not prevent a later True. After the calls the handle is as
  it was, except that the flag is set if and only if it was set before or one of the
  calls found no process with the pid: PID reuse does not set it. A signal delivery
  that reports \<^verbatim>\<open>ESRCH\<close> sets the flag.
\<close>

theorem gone_is_sticky:
  assumes "0 \<le> p_pid self" and "fst (p_ident self) = p_pid self" and "i < length plats"
  shows "(p_gone self \<or> (\<exists>j<i. \<exists>x. proc_create_time (plats ! j) (p_pid self)
                                   = Inl (NoSuchProcess x))
           \<longrightarrow> fst (is_running_seq plats self) ! i = Inr False)
       \<and> (fst (is_running_seq plats self) ! i = Inr True) =
           (\<not> p_gone self
            \<and> (\<forall>j<i. \<forall>x. proc_create_time (plats ! j) (p_pid self) \<noteq> Inl (NoSuchProcess x))
            \<and> (case snd (p_ident self) of
                 Some ct \<Rightarrow> proc_create_time (plats ! i) (p_pid self) = Inr ct
               | None \<Rightarrow> (\<exists>x. proc_create_time (plats ! i) (p_pid self)
                                 = Inl (AccessDenied x))))
       \<and> snd (is_running_seq plats self) =
           self\<lparr>p_gone := p_gone self
                      \<or> (\<exists>j<length plats. \<exists>x. proc_create_time (plats ! j) (p_pid self)
                                                 = Inl (NoSuchProcess x))\<rparr>
       \<and> (os_kill plat (p_pid self) sig = Some ESRCH
           \<longrightarrow> p_gone (snd (snd (posix_send_signal plat sig self))))"
proof (intro conjI impI)
  assume "p_gone self \<or> (\<exists>j<i. \<exists>x. proc_create_time (plats ! j) (p_pid self)
                                   = Inl (NoSuchProcess x))"
  then show "fst (is_running_seq plats self) ! i = Inr False"
    by (rule is_running_seq_sticky [OF assms(1,3)])
next
  show "(fst (is_running_seq plats self) ! i = Inr True) =
           (\<not> p_gone self
            \<and> (\<forall>j<i. \<forall>x. proc_create_time (plats ! j) (p_pid self) \<noteq> Inl (NoSuchProcess x))
            \<and> (case snd (p_ident self) of
                 Some ct \<Rightarrow> proc_create_time (plats ! i) (p_pid self) = Inr ct
               | None \<Rightarrow> (\<exists>x. proc_create_time (plats ! i) (p_pid self)
                                 = Inl (AccessDenied x))))"
    by (rule is_running_seq_answer [OF assms])
next
  show "snd (is_running_seq plats self) =
           self\<lparr>p_gone := p_gone self
                      \<or> (\<exists>j<length plats. \<exists>x. proc_create_time (plats ! j) (p_pid self)
                                                 = Inl (NoSuchProcess x))\<rparr>"
    by (rule is_running_seq_handle_after [OF assms(1)])
next
  assume "os_kill plat (p_pid self) sig = Some ESRCH"
  then show "p_gone (snd (snd (posix_send_signal plat sig self)))"
    by (rule posix_send_signal_sets_gone)
qed

text \<open>
  The handle for pid 5 created at time 10, with the pid first held by a process created
  at time 20, then by no process, then by a process created at time 10: the third
  answer is False and the flag is set.
\<close>

theorem gone_is_sticky_witness:
  "fst (is_running_seq
          [posix_platform [5] (\<lambda>p. Inr 20) (\<lambda>p. Inr (Some 1)),
           posix_platform [] (\<lambda>p. Inl (NoSuchProcess p)) (\<lambda>p. Inr None),
           posix_platform [5] (\<lambda>p. Inr 10) (\<lambda>p. Inr (Some 1))]
          (handle 5 10)) ! 2 = Inr False
   \<and> p_gone (snd (is_running_seq
          [posix_platform [5] (\<lambda>p. Inr 20) (\<lambda>p. Inr (Some 1)),
           posix_platform [] (\<lambda>p. Inl (NoSuchProcess p)) (\<lambda>p. Inr None),
           posix_platform [5] (\<lambda>p. Inr 10) (\<lambda>p. Inr (Some 1))]
          (handle 5 10)))"
proof -
  let ?plats = "[posix_platform [5] (\<lambda>p. Inr 20) (\<lambda>p. Inr (Some 1)),
           posix_platform [] (\<lambda>p. Inl (NoSuchProcess p)) (\<lambda>p. Inr None),
           posix_platform [5] (\<lambda>p. Inr 10) (\<lambda>p. Inr (Some 1))]"
  have a: "0 \<le> p_pid (handle 5 10)" by (simp add: handle_def)
  have b: "fst (p_ident (handle 5 10)) = p_pid (handle 5 10)" by (simp add: handle_def)
  have c: "2 < length ?plats" by simp
  have "proc_create_time (?plats ! 1) (p_pid (handle 5 10)) = Inl (NoSuchProcess 5)"
    by (simp add: posix_platform_def handle_def)
  then have d: "\<exists>j<2. \<exists>x. proc_create_time (?plats ! j) (p_pid (handle 5 10))
                        = Inl (NoSuchProcess x)"
    and e: "\<exists>j<length ?plats. \<exists>x. proc_create_time (?plats ! j) (p_pid (handle 5 10))
                        = Inl (NoSuchProcess x)"
    by (intro exI [of _ 1] exI [of _ 5] conjI, simp, assumption)+
  note t = gone_is_sticky [OF a b c]
  from t d have "fst (is_running_seq ?plats (handle 5 10)) ! 2 = Inr False" by blast
  moreover from t have "snd (is_running_seq ?plats (handle 5 10)) =
      (handle 5 10)\<lparr>p_gone := p_gone (handle 5 10)
         \<or> (\<exists>j<length ?plats. \<exists>x. proc_create_time (?plats ! j) (p_pid (handle 5 10))
                        = Inl (NoSuchProcess x))\<rparr>" by blast
  then have "p_gone (snd (is_running_seq ?plats (handle 5 10)))"
    using e by (simp del: is_running_seq.simps)
  ultimately show ?thesis by blast
qed

section \<open>The identity guard of the acting operations\<close>

text \<open>
  Where the guard is present: when \<^verbatim>\<open>is_running()\<close> is False, setting the niceness
  and the four signal operations raise \<^verbatim>\<open>NoSuchProcess\<close> and make no acting call.
\<close>

lemma guarded_operations_raise:
  assumes "is_running plat self = (Inr False, self')"
  shows "nice plat (Some v) self = (Inl (NoSuchProcess (p_pid self')), [], self')"
    and "send_signal plat sig self = (Inl (NoSuchProcess (p_pid self')), [], self')"
    and "suspend plat self = (Inl (NoSuchProcess (p_pid self')), [], self')"
    and "resume plat self = (Inl (NoSuchProcess (p_pid self')), [], self')"
    and "terminate plat self = (Inl (NoSuchProcess (p_pid self')), [], self')"
    and "kill plat self = (Inl (NoSuchProcess (p_pid self')), [], self')"
  using assms
  by (simp_all add: nice_def send_signal_def suspend_def resume_def terminate_def kill_def
      assert_pid_not_reused_def)

text \<open>
  C1. The class docstring lists \<^verbatim>\<open>parent()\<close>, \<^verbatim>\<open>ionice()\<close> (set), \<^verbatim>\<open>rlimit()\<close> (set)
  and \<^verbatim>\<open>cpu_affinity\<close> (set) among the operations whose process identity is checked
  first. They are not: on a handle for pid 5 created at time 10, whose pid is now held
  by a process created at time 20, \<^verbatim>\<open>is_running()\<close> is False, yet the three setters
  make their acting call on pid 5 and return, and \<^verbatim>\<open>parent()\<close> returns the parent of
  the process that now holds the pid. \<^verbatim>\<open>nice()\<close> (set) on the same handle raises
  \<^verbatim>\<open>NoSuchProcess\<close> without acting.
\<close>

theorem unguarded_operations_on_reused_pid:
  "is_running (posix_platform [1, 5] (\<lambda>p. if p = 5 then Inr 20 else Inr 0) (\<lambda>p. Inr (Some 1)))
     (handle 5 10) = (Inr False, handle 5 10)
   \<and> ionice (posix_platform [1, 5] (\<lambda>p. if p = 5 then Inr 20 else Inr 0) (\<lambda>p. Inr (Some 1)))
       (Some 2) (Some 0) (handle 5 10)
     = (Inr None, [Ionice_set 5 2 (Some 0)], handle 5 10)
   \<and> rlimit (posix_platform [1, 5] (\<lambda>p. if p = 5 then Inr 20 else Inr 0) (\<lambda>p. Inr (Some 1)))
       7 (Some (1024, 1024)) (handle 5 10)
     = (Inr None, [Rlimit_set 5 7 (1024, 1024)], handle 5 10)
   \<and> cpu_affinity
       (posix_platform [1, 5] (\<lambda>p. if p = 5 then Inr 20 else Inr 0) (\<lambda>p. Inr (Some 1)))
       (Some [0]) (handle 5 10)
     = (Inr None, [Cpu_affinity_set 5 [0]], handle 5 10)
   \<and> parent (posix_platform [1, 5] (\<lambda>p. if p = 5 then Inr 20 else Inr 0) (\<lambda>p. Inr (Some 1)))
       (handle 5 10)
     = (Inr (Some (handle 1 0)), handle 5 10)
   \<and> nice (posix_platform [1, 5] (\<lambda>p. if p = 5 then Inr 20 else Inr 0) (\<lambda>p. Inr (Some 1)))
       (Some 3) (handle 5 10)
     = (Inl (NoSuchProcess 5), [], handle 5 10)"
  by (simp add: is_running_def Process_init_def create_time_def Process_eq_def
      posix_platform_def handle_def ionice_def rlimit_def cpu_affinity_def act_def
      parent_def ppid_def nice_def)

section \<open>Properties of children\<close>

lemma create_time_pid: "create_time plat s = (r, s') \<Longrightarrow> p_pid s' = p_pid s"
  by (auto simp: create_time_def split: option.splits sum.splits)

lemma create_time_Inr: "create_time plat s = (Inr v, s') \<Longrightarrow> p_create_time s' = Some v"
  by (auto simp: create_time_def split: option.splits sum.splits)

lemma create_time_keeps:
  "create_time plat s = (r, s') \<Longrightarrow> p_create_time s = Some a \<Longrightarrow> p_create_time s' = Some a"
  by (auto simp: create_time_def split: option.splits sum.splits)

lemma intime_pid: "intime plat self child = (r, s, c) \<Longrightarrow> p_pid c = p_pid child"
  by (auto simp: intime_def split: prod.splits sum.splits error.splits dest: create_time_pid)

lemma intime_keeps:
  "intime plat self child = (r, s, c) \<Longrightarrow> p_create_time self = Some a \<Longrightarrow>
   p_create_time s = Some a"
  by (auto simp: intime_def split: prod.splits sum.splits error.splits dest: create_time_keeps)

lemma intime_True:
  "intime plat self child = (Inr (Some True), s, c) \<Longrightarrow>
   \<exists>a b. p_create_time s = Some a \<and> p_create_time c = Some b \<and> a \<le> b"
  by (auto simp: intime_def split: prod.splits sum.splits error.splits dest: create_time_Inr)

lemma not_older_keep:
  "not_older self ret \<Longrightarrow> (\<And>a. p_create_time self = Some a \<Longrightarrow> p_create_time s = Some a)
   \<Longrightarrow> not_older s ret"
  by (auto simp: not_older_def list_all_iff split: option.splits)

lemma not_older_snoc:
  "not_older s ret \<Longrightarrow> p_create_time s = Some a \<Longrightarrow> p_create_time c = Some b \<Longrightarrow> a \<le> b
   \<Longrightarrow> not_older s (ret @ [c])"
  by (simp add: not_older_def)

lemma expand_inv:
  "expand plat cs (self, ret, cp) = (e, s, ret', cp') \<Longrightarrow> not_older self ret \<Longrightarrow> distinct cp
   \<Longrightarrow> not_older s ret' \<and> distinct cp' \<and> set cp' \<subseteq> set cp \<union> p_pid ` set cs
       \<and> length cp \<le> length cp'"
proof (induction cs arbitrary: self ret cp)
  case Nil
  then show ?case by simp
next
  case (Cons child cs)
  obtain r s1 c where it: "intime plat self child = (r, s1, c)"
    by (cases "intime plat self child") auto
  have keep: "not_older s1 ret"
    using Cons.prems(2) it by (blast intro: not_older_keep intime_keeps)
  have pid: "p_pid c = p_pid child" using it by (rule intime_pid)
  show ?case
  proof (cases r)
    case (Inl err)
    with Cons.prems it keep show ?thesis by auto
  next
    case (Inr ob)
    show ?thesis
    proof (cases ob)
      case None
      with Inr it Cons.prems have "expand plat cs (s1, ret, cp) = (e, s, ret', cp')" by simp
      from Cons.IH [OF this keep Cons.prems(3)] show ?thesis by auto
    next
      case (Some b)
      show ?thesis
      proof (cases b)
        case False
        with Some Inr it Cons.prems have "expand plat cs (s1, ret, cp) = (e, s, ret', cp')"
          by simp
        from Cons.IH [OF this keep Cons.prems(3)] show ?thesis by auto
      next
        case True
        let ?cp = "if p_pid c \<notin> set cp then cp @ [p_pid c] else cp"
        from True Some Inr it Cons.prems
        have ex: "expand plat cs (s1, ret @ [c], ?cp) = (e, s, ret', cp')" by simp
        from True Some Inr it have "intime plat self child = (Inr (Some True), s1, c)"
          by simp
        from intime_True [OF this] obtain a b' where
          "p_create_time s1 = Some a" "p_create_time c = Some b'" "a \<le> b'"
          by blast
        with keep have no: "not_older s1 (ret @ [c])" by (rule not_older_snoc)
        have d: "distinct ?cp" using Cons.prems(3) by simp
        from Cons.IH [OF ex no d] pid show ?thesis by (auto split: if_splits)
      qed
    qed
  qed
qed

lemma walk_inv:
  "walk fuel plat table i (self, ret, cp) = Some (e, s, ret', cp') \<Longrightarrow> not_older self ret
   \<Longrightarrow> distinct cp \<Longrightarrow> not_older s ret' \<and> distinct cp'"
proof (induction fuel arbitrary: i self ret cp)
  case 0
  then show ?case by simp
next
  case (Suc fuel)
  show ?case
  proof (cases "i < length cp")
    case False
    with Suc.prems show ?thesis by simp
  next
    case True
    obtain e1 s1 r1 c1 where ex:
      "expand plat (table (Some (cp ! i))) (self, ret, cp) = (e1, s1, r1, c1)"
      by (cases "expand plat (table (Some (cp ! i))) (self, ret, cp)") auto
    from expand_inv [OF ex Suc.prems(2,3)] have inv: "not_older s1 r1" "distinct c1" by auto
    show ?thesis
    proof (cases e1)
      case (Some err)
      with True ex Suc.prems(1) inv show ?thesis by simp
    next
      case None
      with True ex Suc.prems(1) have "walk fuel plat table (i + 1) (s1, r1, c1) = Some (e, s, ret', cp')"
        by simp
      from Suc.IH [OF this inv] show ?thesis .
    qed
  qed
qed

lemma walk_returns:
  "finite U \<Longrightarrow> (\<And>k. p_pid ` set (table k) \<subseteq> U) \<Longrightarrow> set cp \<subseteq> U \<Longrightarrow> distinct cp
   \<Longrightarrow> not_older self ret \<Longrightarrow> card U - i < fuel
   \<Longrightarrow> walk fuel plat table i (self, ret, cp) \<noteq> None"
proof (induction fuel arbitrary: i self ret cp)
  case 0
  then show ?case by simp
next
  case (Suc fuel)
  show ?case
  proof (cases "i < length cp")
    case False
    then show ?thesis by simp
  next
    case True
    obtain e1 s1 r1 c1 where ex:
      "expand plat (table (Some (cp ! i))) (self, ret, cp) = (e1, s1, r1, c1)"
      by (cases "expand plat (table (Some (cp ! i))) (self, ret, cp)") auto
    from expand_inv [OF ex Suc.prems(5,4)]
    have inv: "not_older s1 r1" "distinct c1"
      "set c1 \<subseteq> set cp \<union> p_pid ` set (table (Some (cp ! i)))" "length cp \<le> length c1"
      by auto
    have sub: "set c1 \<subseteq> U" using inv(3) Suc.prems(2,3) by blast
    have "length cp = card (set cp)" using Suc.prems(4) by (simp add: distinct_card)
    also have "\<dots> \<le> card U" using Suc.prems(1,3) by (rule card_mono)
    finally have "i < card U" using True by simp
    with Suc.prems(6) have fuel: "card U - (i + 1) < fuel" by simp
    show ?thesis
    proof (cases e1)
      case (Some err)
      with True ex show ?thesis by simp
    next
      case None
      from Suc.IH [OF Suc.prems(1,2) sub inv(2,1) fuel] None True ex show ?thesis by simp
    qed
  qed
qed


lemma ppid_pid: "ppid plat p = (r, p') \<Longrightarrow> p_pid p' = p_pid p"
  by (auto simp: ppid_def split: if_splits option.splits sum.splits)

lemma Process_init_pid: "Process_init plat (Some pid) b = Inr p \<Longrightarrow> p_pid p = pid"
  by (auto simp: Process_init_def create_time_def Let_def
      split: if_splits option.splits sum.splits error.splits)

lemma build_table_pids:
  "build_table plat ps t = Inr t' \<Longrightarrow> (\<And>k. p_pid ` set (t k) \<subseteq> U) \<Longrightarrow> p_pid ` set ps \<subseteq> U
   \<Longrightarrow> p_pid ` set (t' k) \<subseteq> U"
proof (induction ps arbitrary: t)
  case Nil
  then show ?case by simp
next
  case (Cons p ps)
  obtain r p' where pp: "ppid plat p = (r, p')" by (cases "ppid plat p") auto
  then have pid: "p_pid p' = p_pid p" by (rule ppid_pid)
  show ?case
  proof (cases r)
    case (Inl err)
    with pp Cons.prems(1) have "build_table plat ps t = Inr t'"
      by (cases err) simp_all
    from Cons.IH [OF this Cons.prems(2)] Cons.prems(3) show ?thesis by simp
  next
    case (Inr key)
    with pp Cons.prems(1) have b: "build_table plat ps (t(key := t key @ [p'])) = Inr t'"
      by simp
    have "\<And>k. p_pid ` set ((t(key := t key @ [p'])) k) \<subseteq> U"
      using Cons.prems(2,3) pid by auto
    from Cons.IH [OF b this] Cons.prems(3) show ?thesis by simp
  qed
qed

lemma build_table_ppid_map_pids:
  "build_table_ppid_map plat m t = Inr t' \<Longrightarrow> (\<And>k. p_pid ` set (t k) \<subseteq> U)
   \<Longrightarrow> fst ` set m \<subseteq> U \<Longrightarrow> p_pid ` set (t' k) \<subseteq> U"
proof (induction m arbitrary: t)
  case Nil
  then show ?case by simp
next
  case (Cons a m)
  obtain pid key where a: "a = (pid, key)" by (cases a)
  show ?case
  proof (cases "Process_init plat (Some pid) False")
    case (Inl err)
    with a Cons.prems(1) have "build_table_ppid_map plat m t = Inr t'"
      by (cases err) simp_all
    from Cons.IH [OF this Cons.prems(2)] Cons.prems(3) show ?thesis by simp
  next
    case (Inr p)
    then have pid: "p_pid p = pid" by (rule Process_init_pid)
    from Inr a Cons.prems(1)
    have b: "build_table_ppid_map plat m (t(key := t key @ [p])) = Inr t'" by simp
    have "\<And>k. p_pid ` set ((t(key := t key @ [p])) k) \<subseteq> U"
      using Cons.prems(2,3) pid a by auto
    from Cons.IH [OF b this] Cons.prems(3) show ?thesis by simp
  qed
qed

lemma not_older_Nil: "not_older self []"
  by (simp add: not_older_def)

lemma walk_from_table:
  assumes "finite U" and "\<And>k. p_pid ` set (table k) \<subseteq> U" and "p_pid self \<in> U"
    and "card U < fuel"
  shows "\<exists>e s ret cp. walk fuel plat table 0 (self, [], [p_pid self]) = Some (e, s, ret, cp)
           \<and> not_older s ret \<and> distinct cp"
proof -
  have "walk fuel plat table 0 (self, [], [p_pid self]) \<noteq> None"
    using assms by (intro walk_returns [where U = U]) (simp_all add: not_older_Nil)
  then obtain e s ret cp where w:
    "walk fuel plat table 0 (self, [], [p_pid self]) = Some (e, s, ret, cp)"
    by (cases "walk fuel plat table 0 (self, [], [p_pid self])") auto
  from walk_inv [OF w] have "not_older s ret \<and> distinct cp" by (simp add: not_older_Nil)
  with w show ?thesis by blast
qed

lemma children_body_recursive:
  assumes "length procs + length (psplatform_ppid_map plat) + 2 \<le> fuel"
  shows "\<exists>r s. children_body fuel plat procs True self = Some (r, s)
           \<and> (case r of Inl e \<Rightarrow> True | Inr ret \<Rightarrow> not_older s ret)"
proof -
  let ?b = "if \<not> has_ppid_map plat then build_table plat procs (\<lambda>k. [])
            else build_table_ppid_map plat (psplatform_ppid_map plat) (\<lambda>k. [])"
  show ?thesis
  proof (cases ?b)
    case (Inl err)
    then show ?thesis by (simp add: children_body_def)
  next
    case (Inr table)
    let ?U = "insert (p_pid self)
                (p_pid ` set procs \<union> fst ` set (psplatform_ppid_map plat))"
    have fin: "finite ?U" by simp
    have tab: "\<And>k. p_pid ` set (table k) \<subseteq> ?U"
    proof (cases "has_ppid_map plat")
      case False
      with Inr have "build_table plat procs (\<lambda>k. []) = Inr table" by simp
      then show "\<And>k. p_pid ` set (table k) \<subseteq> ?U"
        by (rule build_table_pids) auto
    next
      case True
      with Inr have "build_table_ppid_map plat (psplatform_ppid_map plat) (\<lambda>k. []) = Inr table"
        by simp
      then show "\<And>k. p_pid ` set (table k) \<subseteq> ?U"
        by (rule build_table_ppid_map_pids) auto
    qed
    have "card ?U \<le> Suc (card (p_pid ` set procs \<union> fst ` set (psplatform_ppid_map plat)))"
      by (simp add: card_insert_le_m1 card_insert_if)
    also have "card (p_pid ` set procs \<union> fst ` set (psplatform_ppid_map plat))
                 \<le> card (p_pid ` set procs) + card (fst ` set (psplatform_ppid_map plat))"
      by (rule card_Un_le)
    also have "card (p_pid ` set procs) \<le> length procs"
      by (metis card_image_le card_length le_trans List.finite_set)
    also have "card (fst ` set (psplatform_ppid_map plat)) \<le> length (psplatform_ppid_map plat)"
      by (metis card_image_le card_length le_trans List.finite_set)
    finally have cu: "card ?U < fuel" using assms by simp
    have "\<exists>e s ret cp. walk fuel plat table 0 (self, [], [p_pid self]) = Some (e, s, ret, cp)
           \<and> not_older s ret \<and> distinct cp"
    proof (rule walk_from_table [where U = ?U])
      show "finite ?U" by (rule fin)
      show "\<And>k. p_pid ` set (table k) \<subseteq> ?U" by (rule tab)
      show "p_pid self \<in> ?U" by simp
      show "card ?U < fuel" by (rule cu)
    qed
    then obtain e s ret cp where w:
      "walk fuel plat table 0 (self, [], [p_pid self]) = Some (e, s, ret, cp)"
      "not_older s ret" by blast
    with Inr show ?thesis
      by (cases e) (simp_all add: children_body_def)
  qed
qed

text \<open>
  C7. In recursive mode, with fuel for one iteration per handle that the enumeration
  and the \<^verbatim>\<open>ppid_map\<close> can supply and two more, \<^verbatim>\<open>children(recursive=True)\<close> returns:
  the walk over \<^verbatim>\<open>checkpids\<close> ends whatever the parent data are, cyclic or not. If it
  returns a list, every handle in it has a creation time not before the creation time
  of \<^verbatim>\<open>self\<close>, the root. The walk expands the entries of \<^verbatim>\<open>checkpids\<close> one after the
  other, each position once, and \<^verbatim>\<open>checkpids\<close> never holds a pid twice: each pid is
  expanded at most once.
\<close>

theorem children_recursive:
  assumes "length procs + length (psplatform_ppid_map plat) + 2 \<le> fuel"
  shows "(\<exists>r self'. children fuel plat procs True self = Some (r, self')
            \<and> (case r of Inl e \<Rightarrow> True | Inr ret \<Rightarrow> not_older self' ret))
         \<and> (walk n plat table 0 (self, [], [p_pid self]) = Some (e, s, ret, checkpids)
              \<longrightarrow> distinct checkpids \<and> not_older s ret)"
proof
  obtain r0 s0 where ir: "is_running plat self = (r0, s0)"
    by (cases "is_running plat self") auto
  show "\<exists>r self'. children fuel plat procs True self = Some (r, self')
            \<and> (case r of Inl e \<Rightarrow> True | Inr ret \<Rightarrow> not_older self' ret)"
  proof (cases r0)
    case (Inl err)
    with ir show ?thesis by (simp add: children_def)
  next
    case (Inr running)
    show ?thesis
    proof (cases running)
      case False
      with Inr ir show ?thesis by (simp add: children_def)
    next
      case True
      with Inr ir have "children fuel plat procs True self = children_body fuel plat procs True s0"
        by (simp add: children_def)
      with children_body_recursive [OF assms, of s0] show ?thesis by simp
    qed
  qed
  show "walk n plat table 0 (self, [], [p_pid self]) = Some (e, s, ret, checkpids)
              \<longrightarrow> distinct checkpids \<and> not_older s ret"
    using walk_inv [of n plat table 0 self "[]" "[p_pid self]" e s ret checkpids]
    by (simp add: not_older_Nil)
qed

text \<open>
  On the family of five with cyclic parent data, the descendants of process 1 are
  2, 3 and, through the cycle, 1 itself: process 3 is kept although it is older than
  its parent 2, process 4 is dropped and its child 5 is never reached.
\<close>

theorem children_recursive_witness:
  "length family_procs + length (psplatform_ppid_map family_platform) + 2 \<le> 7
   \<and> children 7 family_platform family_procs True (handle 1 10)
       = Some (Inr [handle 2 30, handle 3 20, handle 1 10], handle 1 10)
   \<and> not_older (handle 1 10) [handle 2 30, handle 3 20, handle 1 10]"
  using children_recursive [of family_procs family_platform 7 "handle 1 10" 0 "\<lambda>k. []"
      None "handle 1 10" "[]" "[]"]
  by (simp add: family_platform_def family_procs_def children_def children_body_def
      is_running_def Process_init_def create_time_def Process_eq_def posix_platform_def
      handle_def ppid_def intime_def not_older_def eval_nat_numeral)

end
